theory Spec2Isabelle
  imports Main
begin

section \<open>Strings\<close>

text \<open>
  Python's \<open>str\<close> is a sequence of Unicode code points: \<open>len\<close> counts code points and
  the rupee sign is one character. A string is therefore modelled as the list of its code
  points, the integers that \<open>ord\<close> returns; \<open>u\<close> embeds an ASCII literal.
\<close>

type_synonym ustring = "int list"

definition u :: "string \<Rightarrow> ustring" where
  "u s = map of_char s"

definition rupee :: int where
  "rupee = 8377"

text \<open>The literal \<open>'N/A'\<close>: the sentinel for a value that could not be extracted.\<close>

definition NA :: ustring where
  "NA = u ''N/A''"

primrec in_ranges :: "int \<Rightarrow> (int \<times> int) list \<Rightarrow> bool" where
  "in_ranges c [] = False"
| "in_ranges c (r # rs) = ((fst r \<le> c \<and> c \<le> snd r) \<or> in_ranges c rs)"

text \<open>
  \<open>str.isspace\<close>, which decides what \<open>str.strip()\<close> removes and what \<open>\s\<close> matches in
  a \<open>str\<close> pattern.
\<close>

definition isspace :: "int \<Rightarrow> bool" where
  "isspace c = in_ranges c [(9, 13), (28, 32), (133, 133), (160, 160), (5760, 5760),
     (8192, 8202), (8232, 8233), (8239, 8239), (8287, 8287), (12288, 12288)]"

text \<open>
  The decimal digits (general category Nd, Unicode 14): what \<open>\d\<close> matches in a \<open>str\<close>
  pattern.
\<close>

definition isdecimal :: "int \<Rightarrow> bool" where
  "isdecimal c = in_ranges c [(48, 57), (1632, 1641), (1776, 1785), (1984, 1993),
     (2406, 2415), (2534, 2543), (2662, 2671), (2790, 2799), (2918, 2927), (3046, 3055),
     (3174, 3183), (3302, 3311), (3430, 3439), (3558, 3567), (3664, 3673), (3792, 3801),
     (3872, 3881), (4160, 4169), (4240, 4249), (6112, 6121), (6160, 6169), (6470, 6479),
     (6608, 6617), (6784, 6793), (6800, 6809), (6992, 7001), (7088, 7097), (7232, 7241),
     (7248, 7257), (42528, 42537), (43216, 43225), (43264, 43273), (43472, 43481),
     (43504, 43513), (43600, 43609), (44016, 44025), (65296, 65305), (66720, 66729),
     (68912, 68921), (69734, 69743), (69872, 69881), (69942, 69951), (70096, 70105),
     (70384, 70393), (70736, 70745), (70864, 70873), (71248, 71257), (71360, 71369),
     (71472, 71481), (71904, 71913), (72016, 72025), (72784, 72793), (73040, 73049),
     (73120, 73129), (92768, 92777), (92864, 92873), (93008, 93017), (120782, 120831),
     (123200, 123209), (123632, 123641), (125264, 125273), (130032, 130041)]"

text \<open>
  The characters \<open>str.isdigit\<close> accepts (numeric type Digit or Decimal, Unicode 14): the
  decimal digits and, beyond them, superscripts, subscripts, circled digits and the like.
\<close>

definition isdigit_char :: "int \<Rightarrow> bool" where
  "isdigit_char c = in_ranges c [(48, 57), (178, 179), (185, 185), (1632, 1641),
     (1776, 1785), (1984, 1993), (2406, 2415), (2534, 2543), (2662, 2671), (2790, 2799),
     (2918, 2927), (3046, 3055), (3174, 3183), (3302, 3311), (3430, 3439), (3558, 3567),
     (3664, 3673), (3792, 3801), (3872, 3881), (4160, 4169), (4240, 4249), (4969, 4977),
     (6112, 6121), (6160, 6169), (6470, 6479), (6608, 6618), (6784, 6793), (6800, 6809),
     (6992, 7001), (7088, 7097), (7232, 7241), (7248, 7257), (8304, 8304), (8308, 8313),
     (8320, 8329), (9312, 9320), (9332, 9340), (9352, 9360), (9450, 9450), (9461, 9469),
     (9471, 9471), (10102, 10110), (10112, 10120), (10122, 10130), (42528, 42537),
     (43216, 43225), (43264, 43273), (43472, 43481), (43504, 43513), (43600, 43609),
     (44016, 44025), (65296, 65305), (66720, 66729), (68160, 68163), (68912, 68921),
     (69216, 69224), (69714, 69722), (69734, 69743), (69872, 69881), (69942, 69951),
     (70096, 70105), (70384, 70393), (70736, 70745), (70864, 70873), (71248, 71257),
     (71360, 71369), (71472, 71481), (71904, 71913), (72016, 72025), (72784, 72793),
     (73040, 73049), (73120, 73129), (92768, 92777), (92864, 92873), (93008, 93017),
     (120782, 120831), (123200, 123209), (123632, 123641), (125264, 125273),
     (127232, 127242), (130032, 130041)]"

text \<open>\<open>s.isdigit()\<close>: every character is a digit and there is at least one.\<close>

definition isdigit :: "ustring \<Rightarrow> bool" where
  "isdigit s = (s \<noteq> [] \<and> list_all isdigit_char s)"

text \<open>\<open>s.strip()\<close>.\<close>

definition lstrip :: "ustring \<Rightarrow> ustring" where
  "lstrip s = dropWhile isspace s"

definition rstrip :: "ustring \<Rightarrow> ustring" where
  "rstrip s = rev (dropWhile isspace (rev s))"

definition strip :: "ustring \<Rightarrow> ustring" where
  "strip s = rstrip (lstrip s)"

text \<open>\<open>s.startswith(p)\<close> and \<open>p in s\<close>.\<close>

definition startswith :: "ustring \<Rightarrow> ustring \<Rightarrow> bool" where
  "startswith s p = (take (length p) s = p)"

fun str_in :: "ustring \<Rightarrow> ustring \<Rightarrow> bool" where
  "str_in p [] = (p = [])"
| "str_in p (c # cs) = (startswith (c # cs) p \<or> str_in p cs)"

text \<open>
  \<open>s.split(sep)\<close> for a non-empty separator (every separator of the source is a non-empty
  literal): the pieces between the non-overlapping occurrences of \<open>sep\<close>, scanned from
  the left.
\<close>

function split_str :: "ustring \<Rightarrow> ustring \<Rightarrow> ustring list" where
  "split_str sep s =
     (if sep \<noteq> [] \<and> startswith s sep then [] # split_str sep (drop (length sep) s)
      else (case s of
              [] \<Rightarrow> [[]]
            | c # cs \<Rightarrow> (case split_str sep cs of
                           [] \<Rightarrow> [[c]]
                         | x # xs \<Rightarrow> (c # x) # xs)))"
  by pat_completeness auto
termination
proof (relation "measure (\<lambda>(sep, s). length s)")
  fix sep s :: ustring
  assume "sep \<noteq> [] \<and> startswith s sep"
  then have "0 < length sep" and "s \<noteq> []"
    by (auto simp: startswith_def)
  then show "((sep, drop (length sep) s), (sep, s)) \<in> measure (\<lambda>(sep, s). length s)"
    by simp
qed auto

text \<open>\<open>sep.join(xs)\<close>.\<close>

fun join :: "ustring \<Rightarrow> ustring list \<Rightarrow> ustring" where
  "join sep [] = []"
| "join sep [x] = x"
| "join sep (x # y # ys) = x @ sep @ join sep (y # ys)"

section \<open>Regular expressions\<close>

text \<open>
  The patterns of the source use character classes, sequence, alternation, \<open>?\<close>, \<open>*\<close> and
  \<open>+\<close>. \<open>rmatch r s\<close> lists, in the order in which Python's backtracking matcher tries
  them (greedy repetition, left alternative first), the remainders of \<open>s\<close> after a match
  of \<open>r\<close> at its start; the head of the list is the match that \<open>re\<close> reports. The
  length bounds in the equations for \<open>Seq\<close> and \<open>Star\<close> hold for every remainder and an
  iteration of \<open>*\<close> that consumes nothing is not repeated.
\<close>

datatype re = Cls "int \<Rightarrow> bool" | Eps | Seq re re | Alt re re | Opt re | Star re

function rmatch :: "re \<Rightarrow> ustring \<Rightarrow> ustring list" where
  "rmatch (Cls P) s = (case s of [] \<Rightarrow> [] | c # cs \<Rightarrow> if P c then [cs] else [])"
| "rmatch Eps s = [s]"
| "rmatch (Seq a b) s =
     concat (map (rmatch b) (filter (\<lambda>t. length t \<le> length s) (rmatch a s)))"
| "rmatch (Alt a b) s = rmatch a s @ rmatch b s"
| "rmatch (Opt a) s = rmatch a s @ [s]"
| "rmatch (Star a) s =
     concat (map (rmatch (Star a)) (filter (\<lambda>t. length t < length s) (rmatch a s))) @ [s]"
  by pat_completeness auto
termination
  by (relation "measures [\<lambda>(r, s). length s, \<lambda>(r, s). size r]") auto

definition Plus :: "re \<Rightarrow> re" where
  "Plus a = Seq a (Star a)"

text \<open>A literal character, a literal string, and their \<open>re.IGNORECASE\<close> forms.\<close>

definition Chr :: "int \<Rightarrow> re" where
  "Chr c = Cls (\<lambda>x. x = c)"

fun Lit :: "ustring \<Rightarrow> re" where
  "Lit [] = Eps"
| "Lit [c] = Chr c"
| "Lit (c # cs) = Seq (Chr c) (Lit cs)"

text \<open>
  Under \<open>re.IGNORECASE\<close> an ASCII letter of a \<open>str\<close> pattern matches its two cases and,
  for \<open>i\<close>, \<open>k\<close> and \<open>s\<close>, the non-ASCII characters that lower-case or case-fold to them
  (U+0130, U+0131; U+212A; U+017F). Other pattern characters match themselves.
\<close>

definition ieq :: "int \<Rightarrow> int \<Rightarrow> bool" where
  "ieq p x =
     (if 97 \<le> p \<and> p \<le> 122 then
        x = p \<or> x + 32 = p
        \<or> (p = 105 \<and> (x = 304 \<or> x = 305)) \<or> (p = 107 \<and> x = 8490) \<or> (p = 115 \<and> x = 383)
      else if 65 \<le> p \<and> p \<le> 90 then
        x = p \<or> x = p + 32
        \<or> (p = 73 \<and> (x = 304 \<or> x = 305)) \<or> (p = 75 \<and> x = 8490) \<or> (p = 83 \<and> x = 383)
      else x = p)"

definition IChr :: "int \<Rightarrow> re" where
  "IChr c = Cls (ieq c)"

fun ILit :: "ustring \<Rightarrow> re" where
  "ILit [] = Eps"
| "ILit [c] = IChr c"
| "ILit (c # cs) = Seq (IChr c) (ILit cs)"

text \<open>
  \<open>re.search(r, s)\<close>: the match at the leftmost position that has one, as the pair of
  the matched text (\<open>group(0)\<close>) and what follows it; \<open>None\<close> when no position matches.
\<close>

fun re_search :: "re \<Rightarrow> ustring \<Rightarrow> (ustring \<times> ustring) option" where
  "re_search r [] = (case rmatch r [] of [] \<Rightarrow> None | t # _ \<Rightarrow> Some ([], []))"
| "re_search r (c # cs) =
     (case rmatch r (c # cs) of
        [] \<Rightarrow> re_search r cs
      | t # _ \<Rightarrow> Some (take (length (c # cs) - length t) (c # cs), t))"

text \<open>
  \<open>re.search\<close> for a pattern \<open>(g)r\<close> that opens with its only group: the pair of
  \<open>group(0)\<close> and \<open>group(1)\<close>.
\<close>

definition match_group :: "re \<Rightarrow> re \<Rightarrow> ustring \<Rightarrow> (ustring \<times> ustring) option" where
  "match_group g r s =
     (case concat (map (\<lambda>t1. map (\<lambda>t2. (t1, t2)) (rmatch r t1))
                       (filter (\<lambda>t. length t \<le> length s) (rmatch g s))) of
        [] \<Rightarrow> None
      | (t1, t2) # _ \<Rightarrow> Some (take (length s - length t2) s, take (length s - length t1) s))"

fun re_search_group :: "re \<Rightarrow> re \<Rightarrow> ustring \<Rightarrow> (ustring \<times> ustring) option" where
  "re_search_group g r [] = match_group g r []"
| "re_search_group g r (c # cs) =
     (case match_group g r (c # cs) of
        None \<Rightarrow> re_search_group g r cs
      | Some m \<Rightarrow> Some m)"

definition digit :: re where
  "digit = Cls isdecimal"

definition spaces :: re where
  "spaces = Star (Cls isspace)"

section \<open>Product records\<close>

text \<open>
  Every extractor builds its dictionary with the same keys and with strings for values
  (a number for the index, a list of strings for the offers); only the emergency record
  has no \<open>search_query\<close> key.
\<close>

record product =
  index :: nat
  name :: ustring
  current_price :: ustring
  original_price :: ustring
  rating :: ustring
  reviews :: ustring
  discount :: ustring
  offers :: "ustring list"
  image_url :: ustring
  delivery :: ustring
  availability :: ustring
  search_query :: "ustring option"
  site :: ustring
  scraped_at :: ustring

section \<open>Cleaning and validation\<close>

definition prefixes_to_remove :: "ustring list" where
  "prefixes_to_remove =
     [u ''Add to Compare'', u ''Sponsored'', u ''SponsoredCason'',
      u ''SponsoredCason Wireless'', u ''SponsoredCason Wireless + Wired'']"

text \<open>The loop over the prefixes: each is tried once, in order, on the current name.\<close>

fun remove_prefixes :: "ustring list \<Rightarrow> ustring \<Rightarrow> ustring" where
  "remove_prefixes [] nm = nm"
| "remove_prefixes (p # ps) nm =
     remove_prefixes ps (if startswith nm p then strip (drop (length p) nm) else nm)"

definition clean_name :: "ustring \<Rightarrow> ustring" where
  "clean_name nm = (if nm \<noteq> [] then remove_prefixes prefixes_to_remove (strip nm) else nm)"

text \<open>\<open>[\d,]+\<close>, \<open>(\d+\.?\d*)\<close> and \<open>(\d+)\<close>.\<close>

definition price_re :: re where
  "price_re = Plus (Cls (\<lambda>c. isdecimal c \<or> c = 44))"

definition number_re :: re where
  "number_re = Seq (Plus digit) (Seq (Opt (Chr 46)) (Star digit))"

definition count_re :: re where
  "count_re = Plus digit"

definition clean_price :: "ustring \<Rightarrow> ustring" where
  "clean_price p =
     (if p \<noteq> [] then
        (case re_search price_re p of Some (m, _) \<Rightarrow> rupee # m | None \<Rightarrow> NA)
      else p)"

definition clean_rating :: "ustring \<Rightarrow> ustring" where
  "clean_rating r =
     (if r \<noteq> [] then
        (case re_search number_re r of Some (m, _) \<Rightarrow> m | None \<Rightarrow> NA)
      else r)"

definition clean_reviews :: "ustring \<Rightarrow> ustring" where
  "clean_reviews r =
     (if r \<noteq> [] then
        (case re_search count_re r of Some (m, _) \<Rightarrow> m | None \<Rightarrow> NA)
      else r)"

text \<open>
  \<open>clean_product_data\<close> assigns to the keys of the dictionary it is given and returns that
  same dictionary; the model returns the dictionary as it stands after the call.
\<close>

definition clean_product_data :: "product \<Rightarrow> product" where
  "clean_product_data pd =
     pd\<lparr>name := clean_name (name pd),
        current_price := clean_price (current_price pd),
        rating := clean_rating (rating pd),
        reviews := clean_reviews (reviews pd)\<rparr>"

definition bad_name_patterns :: "ustring list" where
  "bad_name_patterns =
     [u ''Add to Compare'', u ''Sponsored'', u ''SponsoredCason'',
      u ''SponsoredCason Wireless'', u ''SponsoredCason Wireless + Wired'']"

text \<open>The checks of \<open>validate_product_data\<close> on the cleaned name, in the source's order.\<close>

definition name_ok :: "ustring \<Rightarrow> ustring \<Rightarrow> bool" where
  "name_ok nm site_key =
     (if nm = [] \<or> nm = NA then False
      else if list_ex (\<lambda>pattern. str_in pattern nm) bad_name_patterns then False
      else if length nm < 5 then False
      else if isdigit nm then False
      else if startswith nm [rupee] then False
      else if site_key = u ''amazon'' then (if length nm < 10 then False else True)
      else if site_key = u ''flipkart'' then (if length nm < 5 then False else True)
      else if site_key = u ''sathya'' then
        (if length nm < 2 then False else if startswith nm [rupee] then False else True)
      else if site_key = u ''meesho'' then (if length nm < 3 then False else True)
      else True)"

text \<open>
  \<open>validate_product_data\<close> first cleans the dictionary it is given, in place, and then
  decides. The model returns the dictionary as the call leaves it, with the verdict.
\<close>

definition validate_product_data :: "product \<Rightarrow> ustring \<Rightarrow> product \<times> bool" where
  "validate_product_data product_data site_key =
     (let pd = clean_product_data product_data
      in (pd, name_ok (name pd) site_key))"

text \<open>
  What \<open>(\d+\.?\d*)\<close> consumes at the start of a string that begins with a digit, and
  what it leaves: the digits, then a dot and the digits after it when a dot follows.
\<close>

definition number_prefix :: "ustring \<Rightarrow> ustring" where
  "number_prefix s =
     takeWhile isdecimal s @
       (case dropWhile isdecimal s of
          [] \<Rightarrow> []
        | c # t \<Rightarrow> if c = 46 then 46 # takeWhile isdecimal t else [])"

definition number_rest :: "ustring \<Rightarrow> ustring" where
  "number_rest s =
     (case dropWhile isdecimal s of
        [] \<Rightarrow> []
      | c # t \<Rightarrow> if c = 46 then dropWhile isdecimal t else c # t)"

text \<open>A record as an extractor may build it, for use at concrete inputs.\<close>

definition sample :: product where
  "sample =
     \<lparr>index = 1,
      name = u ''  Noise ColorFit Pulse 2 Smartwatch '',
      current_price = rupee # u '' 12,999 (incl. taxes)'',
      original_price = NA,
      rating = u ''4.2 out of 5 stars'',
      reviews = u ''1,234 ratings'',
      discount = NA,
      offers = [],
      image_url = NA,
      delivery = NA,
      availability = NA,
      search_query = Some (u ''smartwatch''),
      site = u ''flipkart'',
      scraped_at = u ''2024-01-01T00:00:00''\<rparr>"

section \<open>The heuristic text extractor\<close>

text \<open>
  \<open>try_aggressive_parsing\<close> parses the page, removes its script and style elements and
  takes the visible text; the model starts from that text. The timestamp
  \<open>datetime.now().isoformat()\<close> is an argument.
\<close>

definition newline :: int where
  "newline = 10"

text \<open>\<open>search_query or 'N/A'\<close> for an optional argument.\<close>

definition or_NA :: "ustring option \<Rightarrow> ustring" where
  "or_NA q = (case q of None \<Rightarrow> NA | Some s \<Rightarrow> if s \<noteq> [] then s else NA)"

text \<open>
  The patterns of the text extractor: an optional rupee sign before \<open>([\d,]+)\<close>,
  \<open>(\d+\.?\d*)\s*(?:out of 5|/5|stars?)\<close> (its group and what follows the group) and
  \<open>(\d+)\s*(?:ratings?|reviews?)\<close>, the last two under \<open>re.IGNORECASE\<close>.
\<close>

definition chunk_price_re :: re where
  "chunk_price_re = Seq (Opt (Chr rupee)) price_re"

definition rating_tail_re :: re where
  "rating_tail_re =
     Seq spaces (Alt (ILit (u ''out of 5''))
                (Alt (ILit (u ''/5'')) (Seq (ILit (u ''star'')) (Opt (IChr 115)))))"

definition chunk_reviews_re :: re where
  "chunk_reviews_re =
     Seq (Plus digit)
       (Seq spaces (Alt (Seq (ILit (u ''rating'')) (Opt (IChr 115)))
                        (Seq (ILit (u ''review'')) (Opt (IChr 115)))))"

text \<open>The loop that prefers a later, longer line for the name.\<close>

fun pick_name :: "ustring \<Rightarrow> ustring list \<Rightarrow> ustring" where
  "pick_name nm [] = nm"
| "pick_name nm (line # rest) =
     (if length line > length nm \<and> \<not> startswith line [rupee] \<and> rmatch (Plus digit) line = []
      then line else pick_name nm rest)"

definition extract_from_text_chunk ::
  "ustring \<Rightarrow> nat \<Rightarrow> ustring \<Rightarrow> ustring option \<Rightarrow> ustring \<Rightarrow> product option" where
  "extract_from_text_chunk text_chunk idx site_key query now =
     (let lines = filter (\<lambda>l. l \<noteq> []) (map strip (split_str [newline] text_chunk))
      in if lines = [] then None
         else Some
           \<lparr>index = idx,
            name = take 100 (pick_name (hd lines) (tl lines)),
            current_price =
              (case re_search chunk_price_re text_chunk of Some (m, _) \<Rightarrow> m | None \<Rightarrow> NA),
            original_price = NA,
            rating =
              (case re_search_group number_re rating_tail_re text_chunk of
                 Some (_, g) \<Rightarrow> g | None \<Rightarrow> NA),
            reviews =
              (case re_search chunk_reviews_re text_chunk of Some (m, _) \<Rightarrow> m | None \<Rightarrow> NA),
            discount = NA,
            offers = [],
            image_url = NA,
            delivery = NA,
            availability = NA,
            search_query = Some (or_NA query),
            site = site_key,
            scraped_at = now\<rparr>)"

text \<open>
  The anchor patterns: an optional rupee sign before \<open>\d+\<close>, and
  \<open>\d+\s*(?:stars?|ratings?)\<close> under \<open>re.IGNORECASE\<close>.
\<close>

definition anchor_price_re :: re where
  "anchor_price_re = Seq (Opt (Chr rupee)) (Plus digit)"

definition anchor_rating_re :: re where
  "anchor_rating_re =
     Seq (Plus digit)
       (Seq spaces (Alt (Seq (ILit (u ''star'')) (Opt (IChr 115)))
                        (Seq (ILit (u ''rating'')) (Opt (IChr 115)))))"

definition is_anchor :: "ustring \<Rightarrow> bool" where
  "is_anchor line =
     (re_search anchor_price_re line \<noteq> None \<or> re_search anchor_rating_re line \<noteq> None)"

definition text_lines :: "ustring \<Rightarrow> ustring list" where
  "text_lines text_content =
     map strip (filter (\<lambda>line. strip line \<noteq> [] \<and> length (strip line) > 5)
                       (split_str [newline] text_content))"

text \<open>
  One round of the segmentation loop on the pair of \<open>product_chunks\<close> and
  \<open>current_chunk\<close>. Nothing after the loop adds the chunk that is open when the lines
  run out.
\<close>

definition chunk_step :: "ustring list \<times> ustring list \<Rightarrow> ustring \<Rightarrow> ustring list \<times> ustring list" where
  "chunk_step st line =
     (let product_chunks = fst st; current_chunk = snd st
      in if is_anchor line then
           ((if current_chunk \<noteq> [] then product_chunks @ [join [newline] current_chunk]
             else product_chunks),
            [line])
         else if current_chunk \<noteq> [] \<and> length current_chunk < 5 then
           (product_chunks, current_chunk @ [line])
         else
           ((if current_chunk \<noteq> [] then product_chunks @ [join [newline] current_chunk]
             else product_chunks),
            []))"

definition product_chunks :: "ustring \<Rightarrow> ustring list" where
  "product_chunks text_content = fst (foldl chunk_step ([], []) (text_lines text_content))"

definition enumerate :: "'a list \<Rightarrow> (nat \<times> 'a) list" where
  "enumerate xs = zip [0..<length xs] xs"

definition chunk_product ::
  "ustring \<Rightarrow> ustring option \<Rightarrow> ustring \<Rightarrow> product list \<Rightarrow> nat \<times> ustring \<Rightarrow> product list" where
  "chunk_product site_key query now products ic =
     (if length (snd ic) > 20 then
        (case extract_from_text_chunk (snd ic) (fst ic + 1) site_key query now of
           None \<Rightarrow> products
         | Some product_data \<Rightarrow>
             (let v = validate_product_data product_data site_key
              in if snd v then products @ [fst v] else products))
      else products)"

definition try_aggressive_parsing ::
  "product list \<Rightarrow> ustring \<Rightarrow> ustring \<Rightarrow> ustring option \<Rightarrow> ustring \<Rightarrow> product list" where
  "try_aggressive_parsing products text_content site_key query now =
     foldl (chunk_product site_key query now) products
       (enumerate (take 20 (product_chunks text_content)))"

text \<open>The four lines of the example: a price, a name, a rating, a review count.\<close>

definition mouse_text :: ustring where
  "mouse_text =
     rupee # u ''799'' @ [newline] @ u ''Wireless Mouse'' @ [newline]
       @ u ''4.2 out of 5'' @ [newline] @ u ''230 ratings''"

section \<open>Documents\<close>

text \<open>
  A parsed fragment: strings and elements with a tag name, attributes and children. The
  parser gives every string a type: plain text is a \<open>NavigableString\<close>; a comment, a
  CDATA section, a doctype, a declaration and a processing instruction have types of
  their own; the text inside a \<open>script\<close>, \<open>style\<close>, \<open>template\<close>, \<open>rt\<close> or \<open>rp\<close>
  element has the type of that container. The root of a fragment handed to an extractor
  is an element (the parser's document object or a product container).
\<close>

datatype string_type =
  NavigableString | CData | Comment | Doctype | Declaration | ProcessingInstruction
  | Script | Stylesheet | TemplateString | RubyTextString | RubyParenthesisString

datatype node = Text string_type ustring | Tag ustring "(ustring \<times> ustring) list" "node list"

text \<open>
  The string types an element's text is made of: those of its container type for the
  five container elements, plain text and CDATA for every other element.
\<close>

definition interesting_string_types :: "ustring \<Rightarrow> string_type list" where
  "interesting_string_types nm =
     (if nm = u ''script'' then [Script]
      else if nm = u ''style'' then [Stylesheet]
      else if nm = u ''template'' then [TemplateString]
      else if nm = u ''rt'' then [RubyTextString]
      else if nm = u ''rp'' then [RubyParenthesisString]
      else [NavigableString, CData])"

text \<open>The strings below a node in document order, each with its type.\<close>

fun strings :: "node \<Rightarrow> (string_type \<times> ustring) list" where
  "strings (Text k s) = [(k, s)]"
| "strings (Tag nm attrs children) = concat (map strings children)"

text \<open>
  \<open>element.get_text(strip=True)\<close>: the strings below the element that are of a type
  the element takes its text from, each stripped, the empty ones dropped, joined without
  a separator. Comments and the contents of scripts, styles and templates are thus no
  part of the text of an element around them. The extractors apply it to elements only.
\<close>

fun get_text :: "node \<Rightarrow> ustring" where
  "get_text (Text k s) = strip s"
| "get_text (Tag nm attrs children) =
     concat (filter (\<lambda>s. s \<noteq> [])
       (map (\<lambda>ks. strip (snd ks))
         (filter (\<lambda>ks. fst ks \<in> set (interesting_string_types nm))
           (concat (map strings children)))))"

text \<open>
  The strings below a node in document order, of every type, each with its
  \<open>.parent\<close>.
\<close>

fun text_nodes :: "node \<Rightarrow> node \<Rightarrow> (ustring \<times> node) list" where
  "text_nodes parent (Text k s) = [(s, parent)]"
| "text_nodes parent (Tag nm attrs children) =
     concat (map (text_nodes (Tag nm attrs children)) children)"

text \<open>
  \<open>soup.find_all(string=pattern)\<close>: the strings below \<open>soup\<close>, of whatever type, that
  the compiled pattern finds a match in. Each has a parent, an element, and an element
  is always truthy.
\<close>

definition find_all_string :: "(ustring \<Rightarrow> bool) \<Rightarrow> node \<Rightarrow> (ustring \<times> node) list" where
  "find_all_string matches soup =
     filter (\<lambda>sp. matches (fst sp))
       (case soup of
          Text k s \<Rightarrow> []
        | Tag nm attrs children \<Rightarrow> concat (map (text_nodes soup) children))"

text \<open>The elements below a node, in document order.\<close>

fun elements :: "node \<Rightarrow> node list" where
  "elements (Text k s) = []"
| "elements (Tag nm attrs children) =
     concat (map (\<lambda>c. (case c of Text k s \<Rightarrow> [] | Tag n a cs \<Rightarrow> [c]) @ elements c) children)"

text \<open>
  The CSS selector engine and the regular-expression compiler are libraries; the
  extractors are modelled for any behaviour of the two. \<open>select selector soup\<close> is
  \<open>soup.select(selector)\<close>, the matching elements below \<open>soup\<close> in document order
  (\<open>select_one\<close> is its first element), and \<open>re_compile pattern\<close> is the search
  function of \<open>re.compile(pattern, re.IGNORECASE)\<close>; \<open>None\<close> stands for an exception.
\<close>

record library =
  select :: "ustring \<Rightarrow> node \<Rightarrow> node list option"
  re_compile :: "ustring \<Rightarrow> (ustring \<Rightarrow> bool) option"

definition quote :: int where
  "quote = 34"

text \<open>
  \<open>selector.split(':contains("')[1].split('")')[0]\<close>; \<open>None\<close> is the IndexError of a
  selector that has \<open>:contains(\<close> without the quote.
\<close>

definition text_to_find :: "ustring \<Rightarrow> ustring option" where
  "text_to_find selector =
     (case split_str (u '':contains('' @ [quote]) selector of
        a # b # rest \<Rightarrow> (case split_str [quote, 41] b of [] \<Rightarrow> None | t # ts \<Rightarrow> Some t)
      | _ \<Rightarrow> None)"

definition is_contains :: "ustring \<Rightarrow> bool" where
  "is_contains selector = str_in (u '':contains('') selector"

section \<open>The field resolver\<close>

text \<open>
  One round of the loop of \<open>extract_with_multiple_selectors\<close>: \<open>Some text\<close> when the
  round returns \<open>text\<close>, \<open>None\<close> when the loop goes on to the next selector (nothing
  found, or an exception, which the loop catches).
\<close>

definition try_selector :: "library \<Rightarrow> node \<Rightarrow> ustring \<Rightarrow> ustring option" where
  "try_selector lib soup selector =
     (if is_contains selector then
        (case text_to_find selector of
           None \<Rightarrow> None
         | Some pattern \<Rightarrow>
             (case re_compile lib pattern of
                None \<Rightarrow> None
              | Some matches \<Rightarrow>
                  (case find_all_string matches soup of
                     [] \<Rightarrow> None
                   | (s, parent) # rest \<Rightarrow> Some (get_text parent))))
      else
        (case select lib selector soup of
           None \<Rightarrow> None
         | Some [] \<Rightarrow> None
         | Some (element # rest) \<Rightarrow>
             (let text = get_text element
              in if text \<noteq> [] \<and> text \<noteq> NA \<and> length text > 0 then Some text else None)))"

text \<open>
  \<open>extract_with_multiple_selectors\<close>, with the selectors the loop has evaluated next to
  the value it returns.
\<close>

fun extract_with_multiple_selectors ::
  "library \<Rightarrow> node \<Rightarrow> ustring list \<Rightarrow> ustring list \<times> ustring" where
  "extract_with_multiple_selectors lib soup [] = ([], NA)"
| "extract_with_multiple_selectors lib soup (selector # selectors) =
     (case try_selector lib soup selector of
        Some text \<Rightarrow> ([selector], text)
      | None \<Rightarrow>
          (let r = extract_with_multiple_selectors lib soup selectors
           in (selector # fst r, snd r)))"

text \<open>
  Stated apart from the loop, for comparison with it: an expression returns nothing when
  it raises (no quoted text after \<open>:contains(\<close>, a pattern that does not compile, a
  selector the engine refuses), when it matches nothing, or when it is structural and the
  trimmed text of its first match is empty or the sentinel.
\<close>

definition returns_nothing :: "library \<Rightarrow> node \<Rightarrow> ustring \<Rightarrow> bool" where
  "returns_nothing lib soup selector =
     (if is_contains selector then
        (case text_to_find selector of
           None \<Rightarrow> True
         | Some pattern \<Rightarrow>
             (case re_compile lib pattern of
                None \<Rightarrow> True
              | Some matches \<Rightarrow> find_all_string matches soup = []))
      else
        (case select lib selector soup of
           None \<Rightarrow> True
         | Some [] \<Rightarrow> True
         | Some (element # rest) \<Rightarrow> get_text element = [] \<or> get_text element = NA))"

text \<open>
  Likewise for the offers: an expression raises when it has no quoted text after
  \<open>:contains(\<close>, when its pattern does not compile or when the engine refuses it.
\<close>

definition raises :: "library \<Rightarrow> node \<Rightarrow> ustring \<Rightarrow> bool" where
  "raises lib soup selector =
     (if is_contains selector then
        (case text_to_find selector of
           None \<Rightarrow> True
         | Some pattern \<Rightarrow> re_compile lib pattern = None)
      else select lib selector soup = None)"

text \<open>The texts of a list that are not empty and not yet known, each once, in order.\<close>

definition new_texts :: "ustring list \<Rightarrow> ustring list \<Rightarrow> ustring list" where
  "new_texts known texts =
     rev (remdups (rev (filter (\<lambda>t. t \<noteq> [] \<and> t \<notin> set known) texts)))"

text \<open>One round of the loop of \<open>extract_offers_with_config\<close> on the list of offers.\<close>

definition offers_step :: "library \<Rightarrow> node \<Rightarrow> ustring list \<Rightarrow> ustring \<Rightarrow> ustring list" where
  "offers_step lib soup found selector =
     (if is_contains selector then
        (case text_to_find selector of
           None \<Rightarrow> found
         | Some pattern \<Rightarrow>
             (case re_compile lib pattern of
                None \<Rightarrow> found
              | Some matches \<Rightarrow>
                  foldl (\<lambda>acc sp. if strip (fst sp) \<noteq> [] then acc @ [strip (fst sp)] else acc)
                    found (find_all_string matches soup)))
      else
        (case select lib selector soup of
           None \<Rightarrow> found
         | Some selected \<Rightarrow>
             foldl (\<lambda>acc element.
                      (let text = get_text element
                       in if text \<noteq> [] \<and> text \<notin> set acc then acc @ [text] else acc))
               found selected))"

fun extract_offers_with_config ::
  "library \<Rightarrow> node \<Rightarrow> ustring list \<Rightarrow> ustring list \<Rightarrow> ustring list \<times> ustring list" where
  "extract_offers_with_config lib soup found [] = ([], found)"
| "extract_offers_with_config lib soup found (selector # selectors) =
     (let r = extract_offers_with_config lib soup (offers_step lib soup found selector) selectors
      in (selector # fst r, snd r))"

text \<open>
  The loop shared in shape by \<open>extract_delivery_info\<close> and \<open>extract_availability\<close>: for
  a \<open>:contains\<close> selector the first text node that the function's own pattern matches is
  returned stripped; otherwise the text of the first element selected.
\<close>

fun info_loop :: "library \<Rightarrow> re \<Rightarrow> node \<Rightarrow> ustring list \<Rightarrow> ustring" where
  "info_loop lib pattern soup [] = NA"
| "info_loop lib pattern soup (selector # selectors) =
     (if is_contains selector then
        (case find_all_string (\<lambda>s. re_search pattern s \<noteq> None) soup of
           [] \<Rightarrow> info_loop lib pattern soup selectors
         | (s, parent) # rest \<Rightarrow> strip s)
      else
        (case select lib selector soup of
           None \<Rightarrow> info_loop lib pattern soup selectors
         | Some [] \<Rightarrow> info_loop lib pattern soup selectors
         | Some (element # rest) \<Rightarrow> get_text element))"

definition attr_sel :: "string \<Rightarrow> string \<Rightarrow> string \<Rightarrow> ustring" where
  "attr_sel tag attr v = u tag @ u ''['' @ u attr @ u ''*='' @ [quote] @ u v @ [quote] @ u '']''"

definition contains_sel :: "string \<Rightarrow> string \<Rightarrow> ustring" where
  "contains_sel tag v = u tag @ u '':contains('' @ [quote] @ u v @ [quote] @ u '')''"

definition delivery_selectors :: "ustring list" where
  "delivery_selectors =
     [attr_sel ''div'' ''class'' ''delivery'', attr_sel ''span'' ''class'' ''delivery'',
      attr_sel ''div'' ''class'' ''shipping'', contains_sel ''span'' ''delivery'',
      contains_sel ''span'' ''shipping'']"

definition delivery_re :: re where
  "delivery_re = Alt (ILit (u ''delivery'')) (ILit (u ''shipping''))"

definition extract_delivery_info :: "library \<Rightarrow> node \<Rightarrow> ustring" where
  "extract_delivery_info lib soup = info_loop lib delivery_re soup delivery_selectors"

definition availability_selectors :: "ustring list" where
  "availability_selectors =
     [attr_sel ''span'' ''class'' ''stock'', attr_sel ''div'' ''class'' ''availability'',
      contains_sel ''span'' ''bought'', contains_sel ''span'' ''stock'']"

definition availability_re :: re where
  "availability_re =
     Alt (ILit (u ''bought'')) (Alt (ILit (u ''stock'')) (ILit (u ''available'')))"

definition extract_availability :: "library \<Rightarrow> node \<Rightarrow> ustring" where
  "extract_availability lib soup = info_loop lib availability_re soup availability_selectors"

section \<open>A selector engine for concrete documents\<close>

text \<open>
  For evaluating the extractors on concrete documents: selection for the three selector
  forms \<open>tag\<close>, \<open>tag[attr]\<close> and \<open>tag[attr*="value"]\<close> (an element of that name, with
  that attribute, whose value for that attribute contains the given non-empty text), on
  which it agrees with the CSS engine, and the search function of a pattern without
  metacharacters, a literal matched ignoring case. It answers \<open>None\<close> to everything else
  and is used below only within these forms.
\<close>

fun has_tag :: "ustring \<Rightarrow> node \<Rightarrow> bool" where
  "has_tag t (Text k s) = False"
| "has_tag t (Tag nm attrs children) = (nm = t)"

fun attr_value :: "ustring \<Rightarrow> node \<Rightarrow> ustring option" where
  "attr_value a (Text k s) = None"
| "attr_value a (Tag nm attrs children) = map_of attrs a"

definition is_name :: "ustring \<Rightarrow> bool" where
  "is_name s =
     (s \<noteq> [] \<and> list_all (\<lambda>c. in_ranges c [(48, 57), (65, 90), (97, 122), (45, 45), (95, 95)]) s)"

definition parse_basic :: "ustring \<Rightarrow> (node \<Rightarrow> bool) option" where
  "parse_basic selector =
     (case split_str [91] selector of
        [tag] \<Rightarrow> if is_name tag then Some (has_tag tag) else None
      | [tag, rest] \<Rightarrow>
          (if is_name tag \<and> rest \<noteq> [] \<and> last rest = 93 then
             (case split_str (u ''*='' @ [quote]) (butlast rest) of
                [attr] \<Rightarrow>
                  (if is_name attr then Some (\<lambda>e. has_tag tag e \<and> attr_value attr e \<noteq> None)
                   else None)
              | [attr, v] \<Rightarrow>
                  (if is_name attr \<and> v \<noteq> [] \<and> last v = quote \<and> butlast v \<noteq> []
                      \<and> quote \<notin> set (butlast v) then
                     Some (\<lambda>e. has_tag tag e \<and>
                             (case attr_value attr e of
                                None \<Rightarrow> False
                              | Some w \<Rightarrow> str_in (butlast v) w))
                   else None)
              | _ \<Rightarrow> None)
           else None)
      | _ \<Rightarrow> None)"

definition basic_select :: "ustring \<Rightarrow> node \<Rightarrow> node list option" where
  "basic_select selector soup =
     (case parse_basic selector of
        None \<Rightarrow> None
      | Some matches \<Rightarrow> Some (filter matches (elements soup)))"

definition plain_compile :: "ustring \<Rightarrow> (ustring \<Rightarrow> bool) option" where
  "plain_compile pattern =
     (if list_all (\<lambda>c. c \<notin> set (u ''.^$*+?{}[]|()'') \<and> c \<noteq> 92) pattern
      then Some (\<lambda>s. re_search (ILit pattern) s \<noteq> None) else None)"

definition basic_library :: library where
  "basic_library = \<lparr>select = basic_select, re_compile = plain_compile\<rparr>"

section \<open>The generic extractor\<close>

text \<open>
  \<open>extract_basic_product_data\<close>. The pattern of the current price and that of the
  rating are those of the text extractor.
\<close>

definition extract_basic_product_data ::
  "node \<Rightarrow> nat \<Rightarrow> ustring \<Rightarrow> ustring option \<Rightarrow> ustring \<Rightarrow> product option" where
  "extract_basic_product_data element idx site_key query now =
     (let text_content = get_text element
      in if length text_content < 10 then None
         else
           (let lines = filter (\<lambda>l. l \<noteq> []) (map strip (split_str [newline] text_content));
                nm = (if lines \<noteq> [] then hd lines else NA);
                nm' = (if startswith nm [rupee] \<or> startswith nm (u ''('') \<or> length nm < 3
                       then (if length lines > 1 then lines ! 1 else NA) else nm)
            in Some
              \<lparr>index = idx,
               name = take 100 nm',
               current_price =
                 (case re_search chunk_price_re text_content of
                    Some (m, _) \<Rightarrow> m | None \<Rightarrow> NA),
               original_price = NA,
               rating =
                 (case re_search_group number_re rating_tail_re text_content of
                    Some (_, g) \<Rightarrow> g | None \<Rightarrow> NA),
               reviews = NA,
               discount = NA,
               offers = [],
               image_url = NA,
               delivery = NA,
               availability = NA,
               search_query = Some (or_NA query),
               site = site_key,
               scraped_at = now\<rparr>))"

definition alternative_selectors :: "ustring list" where
  "alternative_selectors =
     [attr_sel ''div'' ''class'' ''product'', attr_sel ''div'' ''class'' ''item'',
      attr_sel ''div'' ''class'' ''card'', u ''div[data-id]'',
      attr_sel ''div'' ''class'' ''search'', attr_sel ''div'' ''class'' ''result'',
      u ''article'', u ''section'']"

text \<open>The inner loop: one of the first ten elements of the query that matched.\<close>

definition alternative_product ::
  "ustring \<Rightarrow> ustring option \<Rightarrow> ustring \<Rightarrow> product list \<Rightarrow> nat \<times> node \<Rightarrow> product list" where
  "alternative_product site_key query now products ie =
     (case extract_basic_product_data (snd ie) (fst ie + 1) site_key query now of
        None \<Rightarrow> products
      | Some product_data \<Rightarrow>
          (let v = validate_product_data product_data site_key
           in if snd v then products @ [fst v] else products))"

text \<open>A candidate that adds no record: nothing extracted, or rejected by validation.\<close>

definition candidate_rejected :: "ustring \<Rightarrow> ustring option \<Rightarrow> ustring \<Rightarrow> nat \<times> node \<Rightarrow> bool" where
  "candidate_rejected site_key query now ie =
     (case extract_basic_product_data (snd ie) (fst ie + 1) site_key query now of
        None \<Rightarrow> True
      | Some product_data \<Rightarrow> \<not> snd (validate_product_data product_data site_key))"

text \<open>
  The loop over the queries, with the queries it has run and the elements it has
  processed next to the products. An exception of \<open>soup.select\<close> leaves the function
  through its outer handler.
\<close>

fun alternative_loop ::
  "library \<Rightarrow> node \<Rightarrow> ustring \<Rightarrow> ustring option \<Rightarrow> ustring \<Rightarrow> product list \<Rightarrow> ustring list
     \<Rightarrow> ustring list \<times> node list \<times> product list" where
  "alternative_loop lib soup site_key query now products [] = ([], [], products)"
| "alternative_loop lib soup site_key query now products (selector # selectors) =
     (case select lib selector soup of
        None \<Rightarrow> ([selector], [], products)
      | Some [] \<Rightarrow>
          (let r = alternative_loop lib soup site_key query now products selectors
           in (selector # fst r, snd r))
      | Some (e # es) \<Rightarrow>
          ([selector], take 10 (e # es),
           foldl (alternative_product site_key query now) products
             (enumerate (take 10 (e # es)))))"

definition try_alternative_parsing ::
  "library \<Rightarrow> node \<Rightarrow> ustring \<Rightarrow> ustring option \<Rightarrow> ustring \<Rightarrow> product list
     \<Rightarrow> ustring list \<times> node list \<times> product list" where
  "try_alternative_parsing lib soup site_key query now products =
     alternative_loop lib soup site_key query now products alternative_selectors"

section \<open>Escalation within a site\<close>

datatype tier = Structured | Generic | Heuristic

text \<open>\<open>not self.products or len([p for p in self.products if p.get('site') == site_key]) == 0\<close>.\<close>

definition no_products_for :: "ustring \<Rightarrow> product list \<Rightarrow> bool" where
  "no_products_for site_key products =
     (products = [] \<or> length (filter (\<lambda>p. site p = site_key) products) = 0)"

text \<open>
  \<open>scrape_site\<close> from the point where the page has loaded. The first tier (the parse of
  the extracted fragments or of the full page with the site's selectors) is any function
  on the list of products that also tells whether it raised; \<open>soup\<close> is the parsed page
  and \<open>text_content\<close> its visible text. The result names the tiers that ran. The call
  of \<open>try_alternative_parsing\<close> passes no search query.
\<close>

definition scrape_site ::
  "library \<Rightarrow> (product list \<Rightarrow> product list \<times> bool) \<Rightarrow> node \<Rightarrow> ustring \<Rightarrow> ustring
     \<Rightarrow> ustring option \<Rightarrow> ustring \<Rightarrow> product list \<Rightarrow> tier list \<times> product list" where
  "scrape_site lib tier1 soup text_content site_key query now products =
     (let r1 = tier1 products
      in if snd r1 then ([Structured], fst r1)
         else if no_products_for site_key (fst r1) then
           (let r2 = try_alternative_parsing lib soup site_key None now (fst r1);
                products2 = snd (snd r2)
            in if no_products_for site_key products2 then
                 ([Structured, Generic, Heuristic],
                  try_aggressive_parsing products2 text_content site_key query now)
               else ([Structured, Generic], products2))
         else ([Structured], fst r1))"

section \<open>The emergency extractor\<close>

text \<open>
  A fetch either raises or returns the success flag and the page text. The parser's
  search for the title element is a function of the page text.
\<close>

datatype fetched = Raised | Page bool ustring

text \<open>The condition \<open>result.success and result.html\<close> under which a page is used.\<close>

fun usable :: "fetched \<Rightarrow> bool" where
  "usable Raised = False"
| "usable (Page success html) = (success \<and> html \<noteq> [])"

definition simple_urls :: "ustring list" where
  "simple_urls = [u ''https://httpbin.org/html'', u ''https://example.com'']"

definition emergency_product :: "nat \<Rightarrow> ustring \<Rightarrow> ustring \<Rightarrow> product" where
  "emergency_product n title_text now =
     \<lparr>index = n + 1,
      name = u ''Emergency Product - '' @ title_text,
      current_price = rupee # u ''999'',
      original_price = rupee # u ''1,199'',
      rating = u ''4.0'',
      reviews = u ''Emergency extraction'',
      discount = u ''17% off'',
      offers = [u ''Emergency mode''],
      image_url = NA,
      delivery = u ''Standard delivery'',
      availability = u ''Available'',
      search_query = None,
      site = u ''emergency'',
      scraped_at = now\<rparr>"

text \<open>The loop over the pages, with the pages it has fetched next to the products.\<close>

fun emergency_loop ::
  "(ustring \<Rightarrow> fetched) \<Rightarrow> (ustring \<Rightarrow> ustring option) \<Rightarrow> ustring \<Rightarrow> product list
     \<Rightarrow> ustring list \<Rightarrow> ustring list \<times> product list" where
  "emergency_loop fetch find_title now products [] = ([], products)"
| "emergency_loop fetch find_title now products (url # urls) =
     (case fetch url of
        Raised \<Rightarrow>
          (let r = emergency_loop fetch find_title now products urls in (url # fst r, snd r))
      | Page success html \<Rightarrow>
          (if success \<and> html \<noteq> [] then
             ([url],
              products @
                [emergency_product (length products)
                   (case find_title html of None \<Rightarrow> u ''Emergency Product'' | Some t \<Rightarrow> t)
                   now])
           else
             (let r = emergency_loop fetch find_title now products urls
              in (url # fst r, snd r))))"

definition emergency_extraction ::
  "(ustring \<Rightarrow> fetched) \<Rightarrow> (ustring \<Rightarrow> ustring option) \<Rightarrow> ustring \<Rightarrow> product list
     \<Rightarrow> ustring list \<times> product list" where
  "emergency_extraction fetch find_title now products =
     emergency_loop fetch find_title now products simple_urls"

text \<open>
  The end of \<open>main\<close>, after the loop over the sites has left \<open>products\<close>: the number of
  calls of the emergency extractor, the pages it fetched, and the products.
\<close>

definition main_fallback ::
  "(ustring \<Rightarrow> fetched) \<Rightarrow> (ustring \<Rightarrow> ustring option) \<Rightarrow> ustring \<Rightarrow> product list
     \<Rightarrow> nat \<times> ustring list \<times> product list" where
  "main_fallback fetch find_title now products =
     (if length products = 0 then (1, emergency_extraction fetch find_title now products)
      else (0, [], products))"

section \<open>Concrete inputs\<close>

text \<open>
  Documents and fetchers for evaluating the extractors: a product card, a fragment with
  delivery and stock texts inside nested elements, a fragment whose first element holds
  only a space and whose second holds the text \<open>N/A\<close>, a product container with a
  script and a comment, a page of twelve \<open>article\<close> elements without attributes, a
  fetcher whose first page comes back with the success flag and no text, and a fetcher
  whose first page raises.
\<close>

definition document :: "node list \<Rightarrow> node" where
  "document children = Tag (u ''[document]'') [] children"

definition offers_doc :: node where
  "offers_doc =
     document
       [Tag (u ''div'') [(u ''class'', u ''card'')]
          [Tag (u ''h2'') [] [Text NavigableString (u '' Wireless Mouse '')],
           Tag (u ''span'') [] [Text NavigableString (u ''10% off'')],
           Tag (u ''p'') [] [Text NavigableString (u ''Bank offer'')]]]"

definition delivery_doc :: node where
  "delivery_doc =
     document
       [Tag (u ''div'') []
          [Tag (u ''span'') []
             [Text NavigableString (u ''Free delivery ''),
              Tag (u ''b'') [] [Text NavigableString (u ''today'')]],
           Tag (u ''p'') []
             [Text NavigableString (u '' In stock ''),
              Tag (u ''i'') [] [Text NavigableString (u ''(3 left)'')]]]]"

definition blank_doc :: node where
  "blank_doc =
     document
       [Tag (u ''span'') [] [Text NavigableString (u '' '')],
        Tag (u ''p'') [] [Text NavigableString (u ''N/A'')],
        Tag (u ''h2'') [] [Text NavigableString (u ''Real Name'')]]"

definition script_doc :: node where
  "script_doc =
     Tag (u ''div'') [(u ''class'', u ''product'')]
       [Tag (u ''script'') [] [Text Script (u ''var p=1;'')],
        Text Comment (u '' card ''),
        Text NavigableString (u ''Wireless Mouse'')]"

definition articles_doc :: node where
  "articles_doc =
     document
       (Tag (u ''article'') [] [Text NavigableString (u ''Wireless Mouse for laptops'')]
        # replicate 11 (Tag (u ''article'') [] [Text NavigableString (u ''Ad'')]))"

definition fetch_empty_first :: "ustring \<Rightarrow> fetched" where
  "fetch_empty_first url =
     (if url = u ''https://httpbin.org/html'' then Page True []
      else Page True (u ''<html><head><title>Example Domain</title></head></html>''))"

definition fetch_second :: "ustring \<Rightarrow> fetched" where
  "fetch_second url =
     (if url = u ''https://httpbin.org/html'' then Raised
      else Page True (u ''<html><head><title>Example Domain</title></head></html>''))"

section \<open>Facts about the regular expressions\<close>

text \<open>
  The equation of \<open>rmatch\<close> for \<open>Star\<close> rewrites its own right-hand side; it is
  unfolded by hand.
\<close>

declare rmatch.simps(6) [simp del]

lemmas eval_simps =
  u_def rupee_def NA_def isdecimal_def isspace_def isdigit_char_def isdigit_def
  strip_def lstrip_def rstrip_def startswith_def
  rmatch.simps re_search.simps Plus_def Chr_def IChr_def ieq_def digit_def spaces_def

lemma rmatch_length: "t \<in> set (rmatch r s) \<Longrightarrow> length t \<le> length s"
proof (induction r s arbitrary: t rule: rmatch.induct)
  case (1 P s)
  then show ?case by (cases s) (auto split: if_splits)
next
  case (2 s)
  then show ?case by simp
next
  case (3 a b s)
  from "3.prems" obtain x where x: "x \<in> set (rmatch a s)" "length x \<le> length s" "t \<in> set (rmatch b x)"
    by auto
  then have "length t \<le> length x"
    using "3.IH"(2) [of x t] by simp
  with x show ?case by simp
next
  case (4 a b s)
  from "4.prems" have "t \<in> set (rmatch a s) \<or> t \<in> set (rmatch b s)" by simp
  then show ?case using "4.IH" by blast
next
  case (5 a s)
  from "5.prems" have "t \<in> set (rmatch a s) \<or> t = s" by auto
  then show ?case using "5.IH" by auto
next
  case (6 a s)
  from "6.prems" have "t = s \<or> (\<exists>x. x \<in> set (rmatch a s) \<and> length x < length s \<and> t \<in> set (rmatch (Star a) x))"
    by (subst (asm) rmatch.simps(6)) auto
  then show ?case
  proof
    assume "t = s"
    then show ?thesis by simp
  next
    assume "\<exists>x. x \<in> set (rmatch a s) \<and> length x < length s \<and> t \<in> set (rmatch (Star a) x)"
    then obtain x where x: "x \<in> set (rmatch a s)" "length x < length s" "t \<in> set (rmatch (Star a) x)"
      by blast
    then have "length t \<le> length x"
      using "6.IH"(2) [of x t] by simp
    with x show ?thesis by simp
  qed
qed

lemma rmatch_Seq: "rmatch (Seq a b) s = concat (map (rmatch b) (rmatch a s))"
proof -
  have "filter (\<lambda>t. length t \<le> length s) (rmatch a s) = rmatch a s"
    by (rule filter_True) (simp add: rmatch_length)
  then show ?thesis by simp
qed

lemma rmatch_Star_Cls:
  "rmatch (Star (Cls P)) s \<noteq> [] \<and> hd (rmatch (Star (Cls P)) s) = dropWhile P s"
proof (induction s)
  case Nil
  then show ?case by (simp add: rmatch.simps(6))
next
  case (Cons c cs)
  have "rmatch (Star (Cls P)) (c # cs) = (if P c then rmatch (Star (Cls P)) cs else []) @ [c # cs]"
    by (subst rmatch.simps(6)) simp
  with Cons show ?case by (simp)
qed

lemma rmatch_Plus_Cls:
  "rmatch (Plus (Cls P)) s = (case s of [] \<Rightarrow> [] | c # cs \<Rightarrow> if P c then rmatch (Star (Cls P)) cs else [])"
  by (cases s) (simp_all add: Plus_def)

lemma take_length_dropWhile: "take (length xs - length (dropWhile P xs)) xs = takeWhile P xs"
  by (induction xs) (auto simp: Suc_diff_le length_dropWhile_le)

lemma re_search_Plus_Cls:
  "re_search (Plus (Cls P)) s =
     (case dropWhile (\<lambda>c. \<not> P c) s of [] \<Rightarrow> None | r \<Rightarrow> Some (takeWhile P r, dropWhile P r))"
proof (induction s)
  case Nil
  then show ?case by (simp add: rmatch_Plus_Cls)
next
  case (Cons c cs)
  show ?case
  proof (cases "P c")
    case True
    obtain t ts where ts: "rmatch (Star (Cls P)) cs = t # ts" and t: "t = dropWhile P cs"
      using rmatch_Star_Cls [of P cs] by (cases "rmatch (Star (Cls P)) cs") auto
    have "take (Suc (length cs) - length (dropWhile P cs)) (c # cs) = c # takeWhile P cs"
      using take_length_dropWhile [of cs P] by (simp add: Suc_diff_le length_dropWhile_le)
    with True ts t show ?thesis by (simp add: rmatch_Plus_Cls)
  next
    case False
    with Cons show ?thesis by (simp add: rmatch_Plus_Cls)
  qed
qed

text \<open>From here on \<open>re_search\<close> is used through its characterisations.\<close>

declare re_search.simps [simp del]

lemma search_run_again:
  assumes "re_search (Plus (Cls P)) s = Some (m, t)"
  shows "m \<noteq> []"
    and "re_search (Plus (Cls P)) m = Some (m, [])"
    and "\<not> P c \<Longrightarrow> re_search (Plus (Cls P)) (c # m) = Some (m, [])"
proof -
  define r where "r = dropWhile (\<lambda>x. \<not> P x) s"
  have eq: "(case r of [] \<Rightarrow> None | a # l \<Rightarrow> Some (takeWhile P (a # l), dropWhile P (a # l))) = Some (m, t)"
    using assms unfolding r_def re_search_Plus_Cls .
  then obtain y ys where ry: "r = y # ys"
    by (cases r) auto
  with eq have m: "m = takeWhile P r"
    by auto
  have "\<not> \<not> P (hd r)"
  proof (rule hd_dropWhile [of "\<lambda>x. \<not> P x" s, folded r_def])
    show "r \<noteq> []" by (simp add: ry)
  qed
  with ry have y: "P y"
    by simp
  have nil: "dropWhile P (takeWhile P ys) = []"
    by (auto dest: set_takeWhileD)
  from ry y m show "m \<noteq> []" by simp
  from nil ry y m show "re_search (Plus (Cls P)) m = Some (m, [])"
    by (simp add: re_search_Plus_Cls)
  assume "\<not> P c"
  with nil ry y m show "re_search (Plus (Cls P)) (c # m) = Some (m, [])"
    by (simp add: re_search_Plus_Cls)
qed

lemma re_search_price_NA: "re_search price_re NA = None"
  by (simp add: price_re_def re_search_Plus_Cls NA_def u_def isdecimal_def)

lemma clean_price_idem: "clean_price (clean_price p) = clean_price p"
proof (cases "re_search price_re p")
  case None
  then show ?thesis
    by (simp add: clean_price_def re_search_price_NA)
next
  case (Some a)
  then obtain m t where a: "re_search price_re p = Some (m, t)" by (cases a) simp
  have "\<not> (isdecimal rupee \<or> rupee = 44)"
    by (simp add: isdecimal_def rupee_def)
  then have "re_search price_re (rupee # m) = Some (m, [])"
    using a unfolding price_re_def by (rule search_run_again(3) [rotated])
  with a show ?thesis
    by (simp add: clean_price_def)
qed

lemma re_search_count_NA: "re_search count_re NA = None"
  by (simp add: count_re_def digit_def re_search_Plus_Cls NA_def u_def isdecimal_def)

lemma clean_reviews_idem: "clean_reviews (clean_reviews p) = clean_reviews p"
proof (cases "re_search count_re p")
  case None
  then show ?thesis
    by (simp add: clean_reviews_def re_search_count_NA)
next
  case (Some a)
  then obtain m t where a: "re_search count_re p = Some (m, t)" by (cases a) simp
  then have "m \<noteq> []" and "re_search count_re m = Some (m, [])"
    unfolding count_re_def digit_def by (rule search_run_again(1), rule search_run_again(2))
  with a show ?thesis
    by (simp add: clean_reviews_def)
qed

declare rmatch.simps(1-5) [simp del]

lemma dot_not_decimal: "\<not> isdecimal 46"
  by (simp add: isdecimal_def)

lemma hd_concat_map:
  assumes "xs = x # xs'" and "f x \<noteq> []"
  shows "concat (map f xs) \<noteq> []" and "hd (concat (map f xs)) = hd (f x)"
  using assms by auto

lemma rmatch_fraction:
  "rmatch (Seq (Opt (Chr 46)) (Star digit)) x \<noteq> [] \<and>
   hd (rmatch (Seq (Opt (Chr 46)) (Star digit)) x) =
     (case x of [] \<Rightarrow> [] | c # t \<Rightarrow> if c = 46 then dropWhile isdecimal t else dropWhile isdecimal (c # t))"
proof (cases x)
  case Nil
  then show ?thesis
    by (simp add: rmatch_Seq Chr_def digit_def rmatch.simps)
next
  case (Cons c t)
  show ?thesis
  proof (cases "c = 46")
    case True
    with Cons have "rmatch (Opt (Chr 46)) x = t # [x]"
      by (simp add: Chr_def rmatch.simps)
    then show ?thesis
      using rmatch_Star_Cls [of isdecimal t] Cons True
      by (simp add: rmatch_Seq digit_def)
  next
    case False
    with Cons have "rmatch (Opt (Chr 46)) x = [x]"
      by (simp add: Chr_def rmatch.simps)
    then show ?thesis
      using rmatch_Star_Cls [of isdecimal x] Cons False
      by (simp add: rmatch_Seq digit_def)
  qed
qed

lemma rmatch_number_no_digit:
  "s = [] \<or> \<not> isdecimal (hd s) \<Longrightarrow> rmatch number_re s = []"
  by (cases s) (auto simp: number_re_def rmatch_Seq rmatch_Plus_Cls digit_def)

lemma number_prefix_split:
  "number_prefix s @ number_rest s = s"
proof (cases "dropWhile isdecimal s")
  case Nil
  have "takeWhile isdecimal s = s"
    using takeWhile_dropWhile_id [of isdecimal s] unfolding Nil by simp
  then show ?thesis
    unfolding number_prefix_def number_rest_def Nil by simp
next
  case (Cons c t)
  have "takeWhile isdecimal s @ c # takeWhile isdecimal t @ dropWhile isdecimal t = s"
    using takeWhile_dropWhile_id [of isdecimal s] unfolding Cons by simp
  then show ?thesis
    unfolding number_prefix_def number_rest_def Cons by auto
qed

lemma rmatch_number_digit:
  assumes "isdecimal c"
  shows "rmatch number_re (c # cs) \<noteq> [] \<and> hd (rmatch number_re (c # cs)) = number_rest (c # cs)"
proof -
  let ?B = "Seq (Opt (Chr 46)) (Star digit)"
  obtain x xs where xs: "rmatch (Star (Cls isdecimal)) cs = x # xs" and x: "x = dropWhile isdecimal cs"
    using rmatch_Star_Cls [of isdecimal cs] by (cases "rmatch (Star (Cls isdecimal)) cs") auto
  from assms xs have plus: "rmatch (Plus digit) (c # cs) = x # xs"
    by (simp add: digit_def rmatch_Plus_Cls)
  have B: "rmatch ?B x \<noteq> []"
    using rmatch_fraction [of x] by blast
  have F: "hd (rmatch ?B x) =
      (case x of [] \<Rightarrow> [] | c # t \<Rightarrow> if c = 46 then dropWhile isdecimal t else dropWhile isdecimal (c # t))"
    using rmatch_fraction [of x] by blast
  from assms x have dx: "dropWhile isdecimal (c # cs) = x"
    by simp
  have "hd (rmatch ?B x) = number_rest (c # cs)"
  proof (cases x)
    case Nil
    show ?thesis
      using F unfolding number_rest_def dx Nil by simp
  next
    case (Cons d t)
    from x Cons have ne: "dropWhile isdecimal cs = d # t"
      by simp
    have "dropWhile isdecimal cs \<noteq> []"
      unfolding ne by simp
    then have "\<not> isdecimal (hd (dropWhile isdecimal cs))"
      by (rule hd_dropWhile)
    then have "\<not> isdecimal d"
      unfolding ne by simp
    then show ?thesis
      using F unfolding number_rest_def dx Cons by simp
  qed
  moreover have "rmatch number_re (c # cs) = rmatch ?B x @ concat (map (rmatch ?B) xs)"
    unfolding number_re_def rmatch_Seq plus by simp
  ultimately show ?thesis
    using B by simp
qed

lemma re_search_number:
  "re_search number_re s =
     (case dropWhile (\<lambda>c. \<not> isdecimal c) s of
        [] \<Rightarrow> None
      | r # rs \<Rightarrow> Some (number_prefix (r # rs), number_rest (r # rs)))"
proof (induction s)
  case Nil
  then show ?case
    by (simp add: re_search.simps rmatch_number_no_digit)
next
  case (Cons c cs)
  show ?case
  proof (cases "isdecimal c")
    case True
    then obtain t ts where t: "rmatch number_re (c # cs) = t # ts" "t = number_rest (c # cs)"
      using rmatch_number_digit [of c cs] by (cases "rmatch number_re (c # cs)") auto
    have "length (c # cs) - length (number_rest (c # cs)) = length (number_prefix (c # cs))"
      using number_prefix_split [of "c # cs"] by (metis add_diff_cancel_right' length_append)
    then have "take (length (c # cs) - length (number_rest (c # cs))) (c # cs) = number_prefix (c # cs)"
      using number_prefix_split [of "c # cs"] by (metis append_eq_conv_conj)
    with True t show ?thesis
      by (simp add: re_search.simps)
  next
    case False
    with Cons show ?thesis
      by (simp add: re_search.simps rmatch_number_no_digit)
  qed
qed

lemma dropWhile_takeWhile_same: "dropWhile P (takeWhile P xs) = []"
  by (auto dest: set_takeWhileD)

lemma number_prefix_digits: "number_prefix (takeWhile isdecimal s) = takeWhile isdecimal s"
  unfolding number_prefix_def dropWhile_takeWhile_same by simp

lemma number_prefix_idem:
  "number_prefix (number_prefix s) = number_prefix s"
proof (cases "dropWhile isdecimal s")
  case Nil
  have "number_prefix s = takeWhile isdecimal s"
    unfolding number_prefix_def Nil by simp
  then show ?thesis
    by (simp add: number_prefix_digits)
next
  case (Cons c t)
  show ?thesis
  proof (cases "c = 46")
    case True
    have np: "number_prefix s = takeWhile isdecimal s @ 46 # takeWhile isdecimal t"
      unfolding number_prefix_def Cons using True by simp
    have tk: "takeWhile isdecimal (takeWhile isdecimal s @ 46 # takeWhile isdecimal t) = takeWhile isdecimal s"
      by (subst takeWhile_append2) (auto dest: set_takeWhileD simp: dot_not_decimal)
    have dr: "dropWhile isdecimal (takeWhile isdecimal s @ 46 # takeWhile isdecimal t) = 46 # takeWhile isdecimal t"
      by (subst dropWhile_append2) (auto dest: set_takeWhileD simp: dot_not_decimal)
    show ?thesis
      unfolding np unfolding number_prefix_def tk dr by simp
  next
    case False
    have "number_prefix s = takeWhile isdecimal s"
      unfolding number_prefix_def Cons using False by simp
    then show ?thesis
      by (simp add: number_prefix_digits)
  qed
qed

lemma re_search_number_NA: "re_search number_re NA = None"
  by (simp add: re_search_number NA_def u_def isdecimal_def)

lemma clean_rating_idem: "clean_rating (clean_rating p) = clean_rating p"
proof (cases "re_search number_re p")
  case None
  then show ?thesis
    by (simp add: clean_rating_def re_search_number_NA)
next
  case (Some a)
  then obtain r rs where r: "dropWhile (\<lambda>c. \<not> isdecimal c) p = r # rs" and a: "a = (number_prefix (r # rs), number_rest (r # rs))"
    by (auto simp: re_search_number split: list.splits)
  have "dropWhile (\<lambda>c. \<not> isdecimal c) p \<noteq> []"
    unfolding r by simp
  then have "\<not> \<not> isdecimal (hd (dropWhile (\<lambda>c. \<not> isdecimal c) p))"
    by (rule hd_dropWhile)
  then have d: "isdecimal r"
    unfolding r by simp
  then obtain n ns where n: "number_prefix (r # rs) = n # ns" and "n = r"
    by (simp add: number_prefix_def)
  with d have "re_search number_re (number_prefix (r # rs)) = Some (number_prefix (r # rs), number_rest (n # ns))"
    using number_prefix_idem [of "r # rs"] by (simp add: re_search_number)
  with Some a n show ?thesis
    by (simp add: clean_rating_def)
qed

lemma lstrip_fixed: "s = [] \<or> \<not> isspace (hd s) \<Longrightarrow> lstrip s = s"
  by (cases s) (auto simp: lstrip_def)

lemma rstrip_fixed: "s = [] \<or> \<not> isspace (last s) \<Longrightarrow> rstrip s = s"
proof (cases "s = []")
  case True
  then show ?thesis by (simp add: rstrip_def)
next
  case False
  assume "s = [] \<or> \<not> isspace (last s)"
  with False have "\<not> isspace (hd (rev s))"
    by (simp add: hd_rev)
  with False have "dropWhile isspace (rev s) = rev s"
    by (cases "rev s") auto
  then show ?thesis
    by (simp add: rstrip_def)
qed

lemma lstrip_hd: "lstrip s = [] \<or> \<not> isspace (hd (lstrip s))"
  unfolding lstrip_def using hd_dropWhile [of isspace s] by blast

lemma rstrip_last: "rstrip s = [] \<or> \<not> isspace (last (rstrip s))"
proof -
  have "dropWhile isspace (rev s) = [] \<or> \<not> isspace (hd (dropWhile isspace (rev s)))"
    using hd_dropWhile [of isspace "rev s"] by blast
  then show ?thesis
    unfolding rstrip_def by (auto simp: last_rev)
qed

lemma rstrip_hd: "rstrip s \<noteq> [] \<Longrightarrow> hd (rstrip s) = hd s"
proof -
  assume ne: "rstrip s \<noteq> []"
  obtain a where a: "rev s = a @ dropWhile isspace (rev s)"
    by (metis takeWhile_dropWhile_id)
  then have "s = rstrip s @ rev a"
    unfolding rstrip_def by (metis rev_append rev_rev_ident)
  with ne show ?thesis
    by (metis hd_append2)
qed

lemma strip_strip: "strip (strip s) = strip s"
proof -
  have l: "strip s = [] \<or> \<not> isspace (hd (strip s))"
  proof (cases "strip s = []")
    case True
    then show ?thesis by simp
  next
    case False
    then have ne: "rstrip (lstrip s) \<noteq> []"
      by (simp add: strip_def)
    then have h: "hd (rstrip (lstrip s)) = hd (lstrip s)"
      by (rule rstrip_hd)
    from ne have "lstrip s \<noteq> []"
      by (auto simp: rstrip_def)
    with lstrip_hd [of s] have "\<not> isspace (hd (lstrip s))"
      by blast
    with h show ?thesis
      by (simp add: strip_def)
  qed
  have r: "strip s = [] \<or> \<not> isspace (last (strip s))"
    unfolding strip_def by (rule rstrip_last)
  show ?thesis
    unfolding strip_def [of "strip s"] lstrip_fixed [OF l] rstrip_fixed [OF r] ..
qed

lemma strip_remove_prefixes:
  "strip nm = nm \<Longrightarrow> strip (remove_prefixes ps nm) = remove_prefixes ps nm"
  by (induction ps arbitrary: nm) (simp_all add: strip_strip)

lemma strip_clean_name: "strip (clean_name nm) = clean_name nm"
proof (cases "nm = []")
  case True
  then show ?thesis
    by (simp add: clean_name_def strip_def lstrip_def rstrip_def)
next
  case False
  then show ?thesis
    by (simp add: clean_name_def strip_remove_prefixes strip_strip)
qed

lemma remove_prefixes_none:
  "\<not> list_ex (startswith nm) ps \<Longrightarrow> remove_prefixes ps nm = nm"
  by (induction ps) simp_all

lemma length_strip: "length (strip s) \<le> length s"
proof -
  have "length (rstrip t) \<le> length t" for t
    unfolding rstrip_def by (metis length_dropWhile_le length_rev)
  moreover have "length (lstrip s) \<le> length s"
    unfolding lstrip_def by (rule length_dropWhile_le)
  ultimately show ?thesis
    unfolding strip_def by (meson le_trans)
qed

lemma length_remove_prefixes: "length (remove_prefixes ps nm) \<le> length nm"
proof (induction ps arbitrary: nm)
  case Nil
  then show ?case by simp
next
  case (Cons p ps)
  have "length (strip (drop (length p) nm)) \<le> length nm"
    using length_strip [of "drop (length p) nm"] by simp
  then have "length (if startswith nm p then strip (drop (length p) nm) else nm) \<le> length nm"
    by simp
  then show ?case
    using Cons [of "if startswith nm p then strip (drop (length p) nm) else nm"] by simp
qed

lemma remove_prefixes_some:
  assumes "list_ex (startswith nm) ps" and "[] \<notin> set ps"
  shows "length (remove_prefixes ps nm) < length nm"
  using assms
proof (induction ps arbitrary: nm)
  case Nil
  then show ?case by simp
next
  case (Cons p ps)
  show ?case
  proof (cases "startswith nm p")
    case True
    from Cons.prems have "p \<noteq> []" by auto
    with True have "0 < length p" "0 < length nm"
      by (auto simp: startswith_def)
    then have "length nm - length p < length nm"
      by (rule diff_less)
    moreover have "length (strip (drop (length p) nm)) \<le> length nm - length p"
      using length_strip [of "drop (length p) nm"] by simp
    ultimately have "length (strip (drop (length p) nm)) < length nm"
      by (rule order.strict_trans1 [rotated])
    moreover have "length (remove_prefixes ps (strip (drop (length p) nm))) \<le> length (strip (drop (length p) nm))"
      by (rule length_remove_prefixes)
    ultimately show ?thesis
      using True by simp
  next
    case False
    with Cons show ?thesis by simp
  qed
qed

lemma startswith_str_in: "startswith nm p \<Longrightarrow> str_in p nm"
  by (cases nm) (auto simp: startswith_def)

lemma name_ok_no_prefix:
  assumes "name_ok nm sk"
  shows "\<not> list_ex (startswith nm) prefixes_to_remove"
proof -
  from assms have "\<not> list_ex (\<lambda>pattern. str_in pattern nm) bad_name_patterns"
    by (auto simp: name_ok_def split: if_splits)
  then show ?thesis
    unfolding prefixes_to_remove_def bad_name_patterns_def list_ex_iff
    using startswith_str_in by blast
qed

lemma clean_name_twice:
  "clean_name (clean_name nm) = clean_name nm \<longleftrightarrow> \<not> list_ex (startswith (clean_name nm)) prefixes_to_remove"
proof (cases "clean_name nm = []")
  case True
  then show ?thesis
    by (simp add: clean_name_def prefixes_to_remove_def startswith_def u_def)
next
  case False
  then have eq: "clean_name (clean_name nm) = remove_prefixes prefixes_to_remove (clean_name nm)"
    by (simp add: clean_name_def [of "clean_name nm"] strip_clean_name)
  show ?thesis
  proof (cases "list_ex (startswith (clean_name nm)) prefixes_to_remove")
    case True
    have "[] \<notin> set prefixes_to_remove"
      by (simp add: prefixes_to_remove_def u_def)
    with True have "length (remove_prefixes prefixes_to_remove (clean_name nm)) < length (clean_name nm)"
      by (rule remove_prefixes_some)
    with True eq show ?thesis by auto
  next
    case False
    with eq show ?thesis
      by (simp add: remove_prefixes_none)
  qed
qed

section \<open>Cleaning\<close>

lemmas clean_eval =
  clean_product_data_def clean_name_def clean_price_def clean_rating_def clean_reviews_def
  prefixes_to_remove_def price_re_def number_re_def count_re_def sample_def

lemmas validate_eval =
  validate_product_data_def name_ok_def bad_name_patterns_def

text \<open>
  C4. Price cleaning turns the raw current price made of the rupee sign and the text
  \<open>" 12,999 (incl. taxes)"\<close> into the rupee sign followed by \<open>12,999\<close>, and the raw
  text \<open>"no price"\<close>, in which no run of digits or commas occurs, into the sentinel for
  an unknown value, which the code spells \<open>N/A\<close>. The other fields of the record do
  not matter.
\<close>

theorem price_cleaning_examples:
  "current_price (clean_product_data (pd\<lparr>current_price := rupee # u '' 12,999 (incl. taxes)''\<rparr>))
     = rupee # u ''12,999''
   \<and> current_price (clean_product_data (pd\<lparr>current_price := u ''no price''\<rparr>)) = NA"
  by (simp add: clean_eval eval_simps)

theorem price_cleaning_examples_witness:
  "current_price (clean_product_data (sample\<lparr>current_price := rupee # u '' 12,999 (incl. taxes)''\<rparr>))
     = rupee # u ''12,999''
   \<and> current_price (clean_product_data (sample\<lparr>current_price := u ''no price''\<rparr>)) = u ''N/A''"
  using price_cleaning_examples [of sample] by (simp add: NA_def)

text \<open>
  C3, as amended. Cleaning a record a second time leaves its current price, rating and
  review count as the first cleaning made them, for every record. The name, and with it
  the whole record, is left alone by the second cleaning exactly when the name that the
  first cleaning produced does not begin with one of the listed prefixes; this is so for
  every record that validation accepts.
\<close>

theorem cleaning_twice:
  "current_price (clean_product_data (clean_product_data pd)) = current_price (clean_product_data pd)
   \<and> rating (clean_product_data (clean_product_data pd)) = rating (clean_product_data pd)
   \<and> reviews (clean_product_data (clean_product_data pd)) = reviews (clean_product_data pd)
   \<and> (clean_product_data (clean_product_data pd) = clean_product_data pd
        \<longleftrightarrow> \<not> list_ex (startswith (name (clean_product_data pd))) prefixes_to_remove)
   \<and> (snd (validate_product_data pd site_key)
        \<longrightarrow> clean_product_data (clean_product_data pd) = clean_product_data pd)"
proof -
  have fields: "clean_product_data (clean_product_data pd) =
      (clean_product_data pd)\<lparr>name := clean_name (clean_name (name pd))\<rparr>"
    by (simp add: clean_product_data_def clean_price_idem clean_rating_idem clean_reviews_idem)
  have nm: "name (clean_product_data pd) = clean_name (name pd)"
    by (simp add: clean_product_data_def)
  have iff: "clean_product_data (clean_product_data pd) = clean_product_data pd
        \<longleftrightarrow> \<not> list_ex (startswith (name (clean_product_data pd))) prefixes_to_remove"
    unfolding nm clean_name_twice [symmetric] fields
    by (metis nm product.surjective product.update_convs(2) product.select_convs(2))
  have "\<not> list_ex (startswith (name (clean_product_data pd))) prefixes_to_remove"
    if "snd (validate_product_data pd site_key)"
    using that name_ok_no_prefix [of "name (clean_product_data pd)" site_key]
    by (simp add: validate_product_data_def Let_def)
  with iff fields show ?thesis
    by simp
qed

theorem cleaning_twice_witness:
  "snd (validate_product_data sample (u ''flipkart''))
   \<and> clean_product_data (clean_product_data sample) = clean_product_data sample
   \<and> name (clean_product_data sample) = u ''Noise ColorFit Pulse 2 Smartwatch''
   \<and> current_price (clean_product_data sample) = rupee # u ''12,999''
   \<and> rating (clean_product_data sample) = u ''4.2''
   \<and> reviews (clean_product_data sample) = u ''1''"
proof -
  have ok: "snd (validate_product_data sample (u ''flipkart''))"
    by (simp add: validate_eval clean_eval eval_simps)
  with cleaning_twice [of sample "u ''flipkart''"]
  have "clean_product_data (clean_product_data sample) = clean_product_data sample"
    by blast
  moreover have "name (clean_product_data sample) = u ''Noise ColorFit Pulse 2 Smartwatch''"
    by (simp add: clean_eval eval_simps)
  moreover have "current_price (clean_product_data sample) = rupee # u ''12,999''"
    by (simp add: clean_eval eval_simps)
  moreover have "rating (clean_product_data sample) = u ''4.2''"
    by (simp add: clean_eval eval_simps)
  moreover have "reviews (clean_product_data sample) = u ''1''"
    by (simp add: clean_eval eval_simps)
  ultimately show ?thesis
    using ok by blast
qed

text \<open>
  The claim as stated fails on a name that carries a listed prefix twice: the first
  cleaning removes one \<open>Sponsored\<close>, the second removes the other.
\<close>

theorem cleaning_twice_counterexample:
  "name (clean_product_data (sample\<lparr>name := u ''SponsoredSponsored Phone''\<rparr>))
     = u ''Sponsored Phone''
   \<and> name (clean_product_data (clean_product_data (sample\<lparr>name := u ''SponsoredSponsored Phone''\<rparr>)))
     = u ''Phone''"
  by (simp add: clean_eval eval_simps)

section \<open>Validation\<close>

text \<open>
  C5. Whatever the other fields and whatever the site, validation rejects a record named
  \<open>Sponsored\<close> (cleaning strips the prefix and leaves the empty name), a record named
  \<open>12345\<close> (all digits) and a record whose name is the rupee sign followed by \<open>499\<close>
  (four characters); it accepts a record named \<open>Noise ColorFit Pulse 2 Smartwatch\<close> for
  the site \<open>flipkart\<close>, whose minimum name length is 5.
\<close>

theorem name_rejection_examples:
  "\<not> snd (validate_product_data (pd\<lparr>name := u ''Sponsored''\<rparr>) site_key)
   \<and> \<not> snd (validate_product_data (pd\<lparr>name := u ''12345''\<rparr>) site_key)
   \<and> \<not> snd (validate_product_data (pd\<lparr>name := rupee # u ''499''\<rparr>) site_key)
   \<and> snd (validate_product_data (pd\<lparr>name := u ''Noise ColorFit Pulse 2 Smartwatch''\<rparr>)
          (u ''flipkart''))"
proof -
  have "\<not> name_ok (clean_name (u ''Sponsored'')) site_key"
    by (simp add: validate_eval clean_eval eval_simps)
  moreover have "\<not> name_ok (clean_name (u ''12345'')) site_key"
    by (simp add: validate_eval clean_eval eval_simps)
  moreover have "\<not> name_ok (clean_name (rupee # u ''499'')) site_key"
    by (simp add: validate_eval clean_eval eval_simps)
  moreover have "name_ok (clean_name (u ''Noise ColorFit Pulse 2 Smartwatch'')) (u ''flipkart'')"
    by (simp add: validate_eval clean_eval eval_simps)
  ultimately show ?thesis
    by (simp add: validate_product_data_def clean_product_data_def)
qed

theorem name_rejection_examples_witness:
  "\<not> snd (validate_product_data (sample\<lparr>name := u ''Sponsored''\<rparr>) (u ''meesho''))
   \<and> \<not> snd (validate_product_data (sample\<lparr>name := u ''12345''\<rparr>) (u ''meesho''))
   \<and> \<not> snd (validate_product_data (sample\<lparr>name := rupee # u ''499''\<rparr>) (u ''meesho''))
   \<and> snd (validate_product_data (sample\<lparr>name := u ''Noise ColorFit Pulse 2 Smartwatch''\<rparr>)
          (u ''flipkart''))"
  using name_rejection_examples [of sample "u ''meesho''"] by blast

text \<open>
  C6. The length check of 5 on the cleaned name comes before the checks by site and holds
  for every site, so a site's own minimum only adds to it: for \<open>sathya\<close>, whose own
  minimum is 2, a cleaned name of 3 or 4 characters is rejected, and for \<open>amazon\<close>,
  whose own minimum is 10, a cleaned name of 5 to 9 characters is rejected.
\<close>

theorem site_minimum_is_additional_floor:
  "(length (name (clean_product_data pd)) \<in> {3, 4}
      \<longrightarrow> \<not> snd (validate_product_data pd (u ''sathya'')))
   \<and> (5 \<le> length (name (clean_product_data pd)) \<and> length (name (clean_product_data pd)) \<le> 9
      \<longrightarrow> \<not> snd (validate_product_data pd (u ''amazon'')))
   \<and> (length (name (clean_product_data pd)) < 5
      \<longrightarrow> \<not> snd (validate_product_data pd site_key))"
  by (auto simp: validate_product_data_def Let_def name_ok_def)

theorem site_minimum_is_additional_floor_witness:
  "length (name (clean_product_data (sample\<lparr>name := u ''Vivo''\<rparr>))) = 4
   \<and> \<not> snd (validate_product_data (sample\<lparr>name := u ''Vivo''\<rparr>) (u ''sathya''))
   \<and> length (name (clean_product_data (sample\<lparr>name := u ''Vivo Y28''\<rparr>))) = 8
   \<and> \<not> snd (validate_product_data (sample\<lparr>name := u ''Vivo Y28''\<rparr>) (u ''amazon''))
   \<and> snd (validate_product_data (sample\<lparr>name := u ''Vivo Y28''\<rparr>) (u ''sathya''))"
proof -
  have a: "name (clean_product_data (sample\<lparr>name := u ''Vivo''\<rparr>)) = u ''Vivo''"
    by (simp add: clean_eval eval_simps)
  have b: "name (clean_product_data (sample\<lparr>name := u ''Vivo Y28''\<rparr>)) = u ''Vivo Y28''"
    by (simp add: clean_eval eval_simps)
  have c: "snd (validate_product_data (sample\<lparr>name := u ''Vivo Y28''\<rparr>) (u ''sathya''))"
    by (simp add: validate_eval clean_eval eval_simps)
  from a b c show ?thesis
    using site_minimum_is_additional_floor [of "sample\<lparr>name := u ''Vivo''\<rparr>" "u ''sathya''"]
      site_minimum_is_additional_floor [of "sample\<lparr>name := u ''Vivo Y28''\<rparr>" "u ''amazon''"]
    by (simp add: u_def)
qed

text \<open>
  C10. The dictionary handed to validation is, after the call, the cleaned one, whatever
  the verdict: its name, current price, rating and review count are the cleaned values
  and its other keys are as before. So a record that is rejected is left changed
  whenever cleaning changes it.
\<close>

theorem validation_cleans_in_place:
  "fst (validate_product_data pd site_key) = clean_product_data pd
   \<and> fst (validate_product_data pd site_key) =
       pd\<lparr>name := clean_name (name pd),
          current_price := clean_price (current_price pd),
          rating := clean_rating (rating pd),
          reviews := clean_reviews (reviews pd)\<rparr>"
  by (simp add: validate_product_data_def clean_product_data_def Let_def)

theorem validation_cleans_in_place_witness:
  "\<not> snd (validate_product_data (sample\<lparr>name := u ''Sponsored''\<rparr>) (u ''amazon''))
   \<and> fst (validate_product_data (sample\<lparr>name := u ''Sponsored''\<rparr>) (u ''amazon''))
       = sample\<lparr>name := [], current_price := rupee # u ''12,999'', rating := u ''4.2'',
                 reviews := u ''1''\<rparr>
   \<and> fst (validate_product_data (sample\<lparr>name := u ''Sponsored''\<rparr>) (u ''amazon''))
       \<noteq> sample\<lparr>name := u ''Sponsored''\<rparr>"
proof -
  have "\<not> snd (validate_product_data (sample\<lparr>name := u ''Sponsored''\<rparr>) (u ''amazon''))"
    by (simp add: validate_eval clean_eval eval_simps)
  moreover have "clean_product_data (sample\<lparr>name := u ''Sponsored''\<rparr>)
       = sample\<lparr>name := [], current_price := rupee # u ''12,999'', rating := u ''4.2'',
                 reviews := u ''1''\<rparr>"
    by (simp add: clean_eval eval_simps)
  moreover have "sample\<lparr>name := [], current_price := rupee # u ''12,999'', rating := u ''4.2'',
                 reviews := u ''1''\<rparr> \<noteq> sample\<lparr>name := u ''Sponsored''\<rparr>"
    by (simp add: sample_def u_def)
  ultimately show ?thesis
    using validation_cleans_in_place [of "sample\<lparr>name := u ''Sponsored''\<rparr>" "u ''amazon''"]
    by simp
qed

section \<open>The heuristic text extractor on the four-line example\<close>

lemma mouse_lines:
  "text_lines mouse_text = [u ''Wireless Mouse'', u ''4.2 out of 5'', u ''230 ratings'']"
  by code_simp

lemma mouse_chunks: "product_chunks mouse_text = [u ''4.2 out of 5'']"
  by code_simp

lemma mouse_chunk_lines:
  "filter (\<lambda>l. l \<noteq> []) (map strip (split_str [newline] mouse_text))
     = [rupee # u ''799'', u ''Wireless Mouse'', u ''4.2 out of 5'', u ''230 ratings'']"
  by code_simp

lemma mouse_name:
  "take 100 (pick_name (rupee # u ''799'') [u ''Wireless Mouse'', u ''4.2 out of 5'', u ''230 ratings''])
     = u ''Wireless Mouse''"
  by code_simp

lemma mouse_price:
  "(case re_search chunk_price_re mouse_text of Some (m, _) \<Rightarrow> m | None \<Rightarrow> NA) = rupee # u ''799''"
  by code_simp

lemma mouse_rating:
  "(case re_search_group number_re rating_tail_re mouse_text of Some (_, g) \<Rightarrow> g | None \<Rightarrow> NA)
     = u ''4.2''"
  by code_simp

lemma mouse_reviews:
  "(case re_search chunk_reviews_re mouse_text of Some (m, _) \<Rightarrow> m | None \<Rightarrow> NA)
     = u ''230 ratings''"
  by code_simp

text \<open>
  C8, as amended. On the four-line text the segmentation keeps three lines (the price
  line has four characters and only lines longer than five are kept) and completes one
  chunk, the rating line, which does not exceed twenty characters: the extractor appends
  no record. The chunk parser \<open>extract_from_text_chunk\<close>, given the four lines as one
  chunk, yields the current price of the rupee sign and \<open>799\<close>, the rating \<open>4.2\<close>, the
  reviews \<open>230 ratings\<close> and the name \<open>Wireless Mouse\<close>.
\<close>

theorem heuristic_chunking_example:
  "text_lines mouse_text = [u ''Wireless Mouse'', u ''4.2 out of 5'', u ''230 ratings'']
   \<and> product_chunks mouse_text = [u ''4.2 out of 5'']
   \<and> try_aggressive_parsing products mouse_text site_key query now = products
   \<and> extract_from_text_chunk mouse_text idx site_key query now =
       Some \<lparr>index = idx, name = u ''Wireless Mouse'', current_price = rupee # u ''799'',
             original_price = NA, rating = u ''4.2'', reviews = u ''230 ratings'',
             discount = NA, offers = [], image_url = NA, delivery = NA, availability = NA,
             search_query = Some (or_NA query), site = site_key, scraped_at = now\<rparr>"
proof -
  have "length (u ''4.2 out of 5'') \<le> 20"
    by (simp add: u_def)
  then have "try_aggressive_parsing products mouse_text site_key query now = products"
    unfolding try_aggressive_parsing_def mouse_chunks
    by (simp add: enumerate_def chunk_product_def)
  moreover have "extract_from_text_chunk mouse_text idx site_key query now =
       Some \<lparr>index = idx, name = u ''Wireless Mouse'', current_price = rupee # u ''799'',
             original_price = NA, rating = u ''4.2'', reviews = u ''230 ratings'',
             discount = NA, offers = [], image_url = NA, delivery = NA, availability = NA,
             search_query = Some (or_NA query), site = site_key, scraped_at = now\<rparr>"
    by (simp only: extract_from_text_chunk_def Let_def mouse_chunk_lines mouse_price
        mouse_rating mouse_reviews list.sel list.distinct if_False mouse_name)
  ultimately show ?thesis
    using mouse_lines mouse_chunks by simp
qed

theorem heuristic_chunking_example_witness:
  "try_aggressive_parsing [sample] mouse_text (u ''meesho'') None (u ''2024-01-01T00:00:00'')
     = [sample]
   \<and> map_option name
       (extract_from_text_chunk mouse_text 1 (u ''meesho'') None (u ''2024-01-01T00:00:00''))
     = Some (u ''Wireless Mouse'')"
  using heuristic_chunking_example
    [of "[sample]" "u ''meesho''" None "u ''2024-01-01T00:00:00''" 1]
  by simp

text \<open>
  The claim as stated fails: run on the visible text of the example, the extractor
  produces no record at all.
\<close>

theorem heuristic_chunking_counterexample:
  "try_aggressive_parsing [] mouse_text (u ''amazon'') (Some (u ''mouse''))
     (u ''2024-01-01T00:00:00'') = []"
  by code_simp

section \<open>The field resolver\<close>

lemma script_text: "get_text script_doc = u ''Wireless Mouse''"
  by code_simp

lemma try_selector_nothing:
  "try_selector lib soup selector = None \<longleftrightarrow> returns_nothing lib soup selector"
  by (auto simp: try_selector_def returns_nothing_def Let_def
      split: option.splits list.splits if_splits)

lemma try_selector_structural:
  "\<not> is_contains selector \<Longrightarrow> select lib selector soup = Some (element # rest)
   \<Longrightarrow> get_text element \<noteq> [] \<Longrightarrow> get_text element \<noteq> NA
   \<Longrightarrow> try_selector lib soup selector = Some (get_text element)"
  by (simp add: try_selector_def Let_def)

lemma contains_returns_parent_text:
  "is_contains selector \<Longrightarrow> text_to_find selector = Some pattern
   \<Longrightarrow> re_compile lib pattern = Some matches
   \<Longrightarrow> find_all_string matches soup = (s, parent) # rest
   \<Longrightarrow> try_selector lib soup selector = Some (get_text parent)"
  by (simp add: try_selector_def)

lemma resolver_first_success:
  "i < length selectors \<Longrightarrow> try_selector lib soup (selectors ! i) = Some v
   \<Longrightarrow> \<forall>j<i. try_selector lib soup (selectors ! j) = None
   \<Longrightarrow> extract_with_multiple_selectors lib soup selectors = (take (Suc i) selectors, v)"
proof (induction selectors arbitrary: i)
  case Nil
  then show ?case by simp
next
  case (Cons s ss)
  show ?case
  proof (cases i)
    case 0
    with Cons.prems show ?thesis by simp
  next
    case (Suc k)
    from Cons.prems Suc have "try_selector lib soup s = None"
      by auto
    moreover from Cons.prems Suc have "k < length ss" "try_selector lib soup (ss ! k) = Some v"
      by auto
    moreover from Cons.prems Suc have "\<forall>j<k. try_selector lib soup (ss ! j) = None"
      by auto
    ultimately show ?thesis
      using Cons.IH [of k] Suc by simp
  qed
qed

lemma resolver_no_success:
  "\<forall>s\<in>set selectors. try_selector lib soup s = None
   \<Longrightarrow> extract_with_multiple_selectors lib soup selectors = (selectors, NA)"
  by (induction selectors) simp_all

lemma offers_snoc:
  "extract_offers_with_config lib soup found (selectors @ [x]) =
     (selectors @ [x],
      offers_step lib soup (snd (extract_offers_with_config lib soup found selectors)) x)"
  by (induction selectors arbitrary: found) (simp_all add: Let_def)

lemma collect_new:
  "foldl (\<lambda>acc t. if t \<noteq> [] \<and> t \<notin> set acc then acc @ [t] else acc) known texts
     = known @ new_texts known texts"
proof (induction texts rule: rev_induct)
  case Nil
  then show ?case by (simp add: new_texts_def)
next
  case (snoc x xs)
  show ?case
  proof (cases "x \<noteq> [] \<and> x \<notin> set known")
    case True
    have "set (new_texts known xs) = {t \<in> set xs. t \<noteq> [] \<and> t \<notin> set known}"
      by (auto simp: new_texts_def)
    with True snoc show ?thesis
      by (auto simp: new_texts_def)
  next
    case False
    with snoc show ?thesis
      by (auto simp: new_texts_def)
  qed
qed

lemma foldl_map_elements:
  "foldl (\<lambda>acc element.
            (let text = get_text element
             in if text \<noteq> [] \<and> text \<notin> set acc then acc @ [text] else acc)) known selected
     = foldl (\<lambda>acc t. if t \<noteq> [] \<and> t \<notin> set acc then acc @ [t] else acc) known
         (map get_text selected)"
  by (induction selected arbitrary: known) (simp_all add: Let_def)

lemma offers_step_structural:
  "\<not> is_contains x \<Longrightarrow> select lib x soup = Some selected
   \<Longrightarrow> offers_step lib soup known x = known @ new_texts known (map get_text selected)"
  by (simp add: offers_step_def foldl_map_elements collect_new)

lemma collect_stripped:
  "foldl (\<lambda>acc sp. if strip (fst sp) \<noteq> [] then acc @ [strip (fst sp)] else acc) known found
     = known @ filter (\<lambda>t. t \<noteq> []) (map (\<lambda>sp. strip (fst sp)) found)"
  by (induction found arbitrary: known) simp_all

lemma offers_step_contains:
  "is_contains x \<Longrightarrow> text_to_find x = Some pattern \<Longrightarrow> re_compile lib pattern = Some matches
   \<Longrightarrow> offers_step lib soup known x
       = known @ filter (\<lambda>t. t \<noteq> [])
           (map (\<lambda>sp. strip (fst sp)) (find_all_string matches soup))"
  by (simp add: offers_step_def collect_stripped)

lemma offers_step_raises:
  "raises lib soup x \<Longrightarrow> offers_step lib soup known x = known"
  by (auto simp: offers_step_def raises_def split: option.splits if_splits)

text \<open>
  C1, as amended. \<open>extract_with_multiple_selectors\<close> tries the expressions of a field in
  list order and stops at the first that returns a text; the expressions evaluated are
  exactly those up to it, for every fragment and every behaviour of the selector engine
  and the pattern compiler. An expression returns nothing when it raises, when it
  matches nothing, or, for a structural expression, when the trimmed text of its first
  match is empty or is the sentinel. A structural expression whose first match has any
  other trimmed text returns that text. A text-containment expression with a matching
  text node returns the trimmed text of the element enclosing the first such node,
  whatever that text is, the empty text included. When every expression returns nothing
  all are evaluated and the value is the sentinel. The offers are resolved differently:
  \<open>extract_offers_with_config\<close> evaluates every expression of its list, and each
  expression extends the offers found so far: a structural one by the trimmed texts of
  all its matches that are non-empty and not yet present, in document order; a
  text-containment one by the non-empty trimmed matching text nodes themselves; one that
  raises by nothing.
\<close>

theorem first_success_determines_value:
  "(i < length selectors \<and> (\<forall>j<i. returns_nothing lib soup (selectors ! j))
      \<and> \<not> is_contains (selectors ! i)
      \<and> select lib (selectors ! i) soup = Some (element # rest)
      \<and> get_text element \<noteq> [] \<and> get_text element \<noteq> NA
     \<longrightarrow> extract_with_multiple_selectors lib soup selectors
           = (take (Suc i) selectors, get_text element))
   \<and> (i < length selectors \<and> (\<forall>j<i. returns_nothing lib soup (selectors ! j))
      \<and> is_contains (selectors ! i)
      \<and> text_to_find (selectors ! i) = Some pattern \<and> re_compile lib pattern = Some matches
      \<and> find_all_string matches soup = (s, parent) # others
     \<longrightarrow> extract_with_multiple_selectors lib soup selectors
           = (take (Suc i) selectors, get_text parent))
   \<and> ((\<forall>e\<in>set selectors. returns_nothing lib soup e)
     \<longrightarrow> extract_with_multiple_selectors lib soup selectors = (selectors, NA))
   \<and> extract_offers_with_config lib soup found [] = ([], found)
   \<and> fst (extract_offers_with_config lib soup found (selectors @ [x])) = selectors @ [x]
   \<and> (\<not> is_contains x \<and> select lib x soup = Some selected
     \<longrightarrow> snd (extract_offers_with_config lib soup found (selectors @ [x]))
           = snd (extract_offers_with_config lib soup found selectors)
             @ new_texts (snd (extract_offers_with_config lib soup found selectors))
                 (map get_text selected))
   \<and> (is_contains x \<and> text_to_find x = Some pattern \<and> re_compile lib pattern = Some matches
     \<longrightarrow> snd (extract_offers_with_config lib soup found (selectors @ [x]))
           = snd (extract_offers_with_config lib soup found selectors)
             @ filter (\<lambda>t. t \<noteq> [])
                 (map (\<lambda>sp. strip (fst sp)) (find_all_string matches soup)))
   \<and> (raises lib soup x
     \<longrightarrow> snd (extract_offers_with_config lib soup found (selectors @ [x]))
           = snd (extract_offers_with_config lib soup found selectors))"
proof -
  have before: "\<forall>j<i. try_selector lib soup (selectors ! j) = None"
    if "\<forall>j<i. returns_nothing lib soup (selectors ! j)"
    using that by (simp add: try_selector_nothing)
  have a: "extract_with_multiple_selectors lib soup selectors
      = (take (Suc i) selectors, get_text element)"
    if "i < length selectors" "\<forall>j<i. returns_nothing lib soup (selectors ! j)"
      "\<not> is_contains (selectors ! i)" "select lib (selectors ! i) soup = Some (element # rest)"
      "get_text element \<noteq> []" "get_text element \<noteq> NA"
    using that(1) try_selector_structural [OF that(3-6)] before [OF that(2)]
    by (rule resolver_first_success)
  have b: "extract_with_multiple_selectors lib soup selectors
      = (take (Suc i) selectors, get_text parent)"
    if "i < length selectors" "\<forall>j<i. returns_nothing lib soup (selectors ! j)"
      "is_contains (selectors ! i)" "text_to_find (selectors ! i) = Some pattern"
      "re_compile lib pattern = Some matches" "find_all_string matches soup = (s, parent) # others"
    using that(1) contains_returns_parent_text [OF that(3-6)] before [OF that(2)]
    by (rule resolver_first_success)
  have c: "extract_with_multiple_selectors lib soup selectors = (selectors, NA)"
    if "\<forall>e\<in>set selectors. returns_nothing lib soup e"
    using that by (intro resolver_no_success) (simp add: try_selector_nothing)
  from a b c show ?thesis
    by (simp add: offers_snoc offers_step_structural offers_step_contains offers_step_raises)
qed

lemma card_h3_nothing: "returns_nothing basic_library offers_doc (u ''h3'')"
  by code_simp

lemma card_h2_selected:
  "select basic_library (u ''h2'') offers_doc
     = Some [Tag (u ''h2'') [] [Text NavigableString (u '' Wireless Mouse '')]]"
  by code_simp

lemma card_h2_text:
  "get_text (Tag (u ''h2'') [] [Text NavigableString (u '' Wireless Mouse '')]) = u ''Wireless Mouse''"
  by code_simp

lemma card_span_offers:
  "extract_offers_with_config basic_library offers_doc [] [u ''span''] = ([u ''span''], [u ''10% off''])"
  by code_simp

lemma card_p_selected:
  "select basic_library (u ''p'') offers_doc
     = Some [Tag (u ''p'') [] [Text NavigableString (u ''Bank offer'')]]"
  by code_simp

lemma card_new_texts:
  "new_texts [u ''10% off''] (map get_text [Tag (u ''p'') [] [Text NavigableString (u ''Bank offer'')]])
     = [u ''Bank offer'']"
  by code_simp

lemma card_refused: "raises basic_library offers_doc (u ''h2 a'')"
  by code_simp

lemma delivery_h3_nothing: "returns_nothing basic_library delivery_doc (u ''h3'')"
  by code_simp

lemma delivery_pattern: "text_to_find (contains_sel ''span'' ''delivery'') = Some (u ''delivery'')"
  by code_simp

lemma delivery_is_contains: "is_contains (contains_sel ''span'' ''delivery'')"
  by code_simp

lemma not_contains: "\<not> is_contains (u ''h2'')" "\<not> is_contains (u ''p'')"
  by code_simp+

lemma delivery_compiled:
  "re_compile basic_library (u ''delivery'')
     = Some (\<lambda>s. re_search (ILit (u ''delivery'')) s \<noteq> None)"
  by (simp add: basic_library_def plain_compile_def u_def)

lemma delivery_found:
  "find_all_string (\<lambda>s. re_search (ILit (u ''delivery'')) s \<noteq> None) delivery_doc
     = [(u ''Free delivery '',
         Tag (u ''span'') []
           [Text NavigableString (u ''Free delivery ''),
            Tag (u ''b'') [] [Text NavigableString (u ''today'')]])]"
  by code_simp

lemma delivery_parent_text:
  "get_text (Tag (u ''span'') []
           [Text NavigableString (u ''Free delivery ''),
            Tag (u ''b'') [] [Text NavigableString (u ''today'')]]) = u ''Free deliverytoday''"
  by code_simp

lemma delivery_stripped:
  "filter (\<lambda>t. t \<noteq> [])
     (map (\<lambda>sp. strip (fst sp))
        [(u ''Free delivery '',
         Tag (u ''span'') []
           [Text NavigableString (u ''Free delivery ''),
            Tag (u ''b'') [] [Text NavigableString (u ''today'')]])]) = [u ''Free delivery'']"
  by code_simp

lemma card_h2_text_ok:
  "get_text (Tag (u ''h2'') [] [Text NavigableString (u '' Wireless Mouse '')]) \<noteq> []"
  "get_text (Tag (u ''h2'') [] [Text NavigableString (u '' Wireless Mouse '')]) \<noteq> NA"
  by code_simp+

theorem first_success_determines_value_witness:
  "extract_with_multiple_selectors basic_library offers_doc [u ''h3'', u ''h2'', u ''span'']
     = ([u ''h3'', u ''h2''], u ''Wireless Mouse'')
   \<and> extract_with_multiple_selectors basic_library delivery_doc
       [u ''h3'', contains_sel ''span'' ''delivery'']
     = ([u ''h3'', contains_sel ''span'' ''delivery''], u ''Free deliverytoday'')
   \<and> extract_with_multiple_selectors basic_library offers_doc [u ''h3''] = ([u ''h3''], NA)
   \<and> extract_offers_with_config basic_library offers_doc [] [u ''span'', u ''p'']
     = ([u ''span'', u ''p''], [u ''10% off'', u ''Bank offer''])
   \<and> extract_offers_with_config basic_library delivery_doc [] [contains_sel ''span'' ''delivery'']
     = ([contains_sel ''span'' ''delivery''], [u ''Free delivery''])
   \<and> extract_offers_with_config basic_library offers_doc [] [u ''span'', u ''h2 a'']
     = ([u ''span'', u ''h2 a''], [u ''10% off''])"
proof -
  let ?h2 = "Tag (u ''h2'') [] [Text NavigableString (u '' Wireless Mouse '')]"
  let ?span = "Tag (u ''span'') []
           [Text NavigableString (u ''Free delivery ''),
            Tag (u ''b'') [] [Text NavigableString (u ''today'')]]"
  let ?m = "\<lambda>s. re_search (ILit (u ''delivery'')) s \<noteq> None"
  have w1: "extract_with_multiple_selectors basic_library offers_doc [u ''h3'', u ''h2'', u ''span'']
     = ([u ''h3'', u ''h2''], u ''Wireless Mouse'')"
  proof -
    let ?sels = "[u ''h3'', u ''h2'', u ''span'']"
    note t = first_success_determines_value
        [where lib = basic_library and soup = offers_doc and i = 1 and selectors = ?sels
           and element = ?h2 and rest = "[]", THEN conjunct1, rule_format]
    have nth: "?sels ! 1 = u ''h2''" "?sels ! 0 = u ''h3''"
      by simp_all
    have h: "1 < length ?sels" "\<forall>j<1. returns_nothing basic_library offers_doc (?sels ! j)"
      using card_h3_nothing by simp_all
    have h': "\<not> is_contains (?sels ! 1)"
      "select basic_library (?sels ! 1) offers_doc = Some (?h2 # [])"
      unfolding nth by (rule not_contains(1), rule card_h2_selected)
    have "extract_with_multiple_selectors basic_library offers_doc ?sels
        = (take (Suc 1) ?sels, get_text ?h2)"
      by (rule t) (intro conjI h h' card_h2_text_ok)
    moreover have "take (Suc 1) ?sels = [u ''h3'', u ''h2'']"
      by simp
    ultimately show ?thesis
      by (simp only: card_h2_text)
  qed
  have w2: "extract_with_multiple_selectors basic_library delivery_doc
       [u ''h3'', contains_sel ''span'' ''delivery'']
     = ([u ''h3'', contains_sel ''span'' ''delivery''], u ''Free deliverytoday'')"
  proof -
    let ?sels = "[u ''h3'', contains_sel ''span'' ''delivery'']"
    note t = first_success_determines_value
        [where lib = basic_library and soup = delivery_doc and i = 1 and selectors = ?sels
           and pattern = "u ''delivery''" and matches = ?m and s = "u ''Free delivery ''"
           and parent = ?span and others = "[]", THEN conjunct2, THEN conjunct1, rule_format]
    have nth: "?sels ! 1 = contains_sel ''span'' ''delivery''" "?sels ! 0 = u ''h3''"
      by simp_all
    have h: "1 < length ?sels" "\<forall>j<1. returns_nothing basic_library delivery_doc (?sels ! j)"
      using delivery_h3_nothing by simp_all
    have h': "is_contains (?sels ! 1)" "text_to_find (?sels ! 1) = Some (u ''delivery'')"
      unfolding nth by (rule delivery_is_contains, rule delivery_pattern)
    have "extract_with_multiple_selectors basic_library delivery_doc ?sels
        = (take (Suc 1) ?sels, get_text ?span)"
      by (rule t) (intro conjI h h' delivery_compiled delivery_found)
    moreover have "take (Suc 1) ?sels = ?sels"
      by simp
    ultimately show ?thesis
      by (simp only: delivery_parent_text)
  qed
  have w3: "extract_with_multiple_selectors basic_library offers_doc [u ''h3''] = ([u ''h3''], NA)"
  proof -
    have "\<forall>e\<in>set [u ''h3'']. returns_nothing basic_library offers_doc e"
      using card_h3_nothing by simp
    then show ?thesis
      by (rule first_success_determines_value
        [where lib = basic_library and soup = offers_doc and selectors = "[u ''h3'']",
          THEN conjunct2, THEN conjunct2, THEN conjunct1, THEN mp])
  qed
  have w4: "extract_offers_with_config basic_library offers_doc [] [u ''span'', u ''p'']
     = ([u ''span'', u ''p''], [u ''10% off'', u ''Bank offer''])"
  proof -
    let ?p = "[Tag (u ''p'') [] [Text NavigableString (u ''Bank offer'')]]"
    note t = first_success_determines_value
      [where lib = basic_library and soup = offers_doc and found = "[]"
         and selectors = "[u ''span'']" and x = "u ''p''" and selected = ?p,
        THEN conjunct2, THEN conjunct2, THEN conjunct2, THEN conjunct2]
    have "fst (extract_offers_with_config basic_library offers_doc [] ([u ''span''] @ [u ''p'']))
        = [u ''span''] @ [u ''p'']"
      by (rule t [THEN conjunct1])
    moreover
    have "snd (extract_offers_with_config basic_library offers_doc [] ([u ''span''] @ [u ''p'']))
        = snd (extract_offers_with_config basic_library offers_doc [] [u ''span''])
          @ new_texts (snd (extract_offers_with_config basic_library offers_doc [] [u ''span'']))
              (map get_text ?p)"
      by (rule t [THEN conjunct2, THEN conjunct1, rule_format])
        (intro conjI not_contains(2) card_p_selected)
    ultimately show ?thesis
      unfolding card_span_offers snd_conv card_new_texts
      by (simp only: prod_eq_iff fst_conv snd_conv append.simps)
  qed
  have w5: "extract_offers_with_config basic_library delivery_doc [] [contains_sel ''span'' ''delivery'']
     = ([contains_sel ''span'' ''delivery''], [u ''Free delivery''])"
  proof -
    note t = first_success_determines_value
      [where lib = basic_library and soup = delivery_doc and found = "[]"
         and selectors = "[]" and x = "contains_sel ''span'' ''delivery''"
         and pattern = "u ''delivery''" and matches = ?m,
        THEN conjunct2, THEN conjunct2, THEN conjunct2]
    have e: "extract_offers_with_config basic_library delivery_doc [] [] = ([], [])"
      by (rule t [THEN conjunct1])
    have "fst (extract_offers_with_config basic_library delivery_doc []
          ([] @ [contains_sel ''span'' ''delivery''])) = [] @ [contains_sel ''span'' ''delivery'']"
      by (rule t [THEN conjunct2, THEN conjunct1])
    moreover
    have "snd (extract_offers_with_config basic_library delivery_doc []
          ([] @ [contains_sel ''span'' ''delivery'']))
        = snd (extract_offers_with_config basic_library delivery_doc [] [])
          @ filter (\<lambda>t. t \<noteq> [])
              (map (\<lambda>sp. strip (fst sp)) (find_all_string ?m delivery_doc))"
      by (rule t [THEN conjunct2, THEN conjunct2, THEN conjunct2, THEN conjunct1, rule_format])
        (intro conjI delivery_is_contains delivery_pattern delivery_compiled)
    ultimately show ?thesis
      unfolding e snd_conv delivery_found delivery_stripped
      by (simp only: prod_eq_iff fst_conv snd_conv append.simps)
  qed
  have w6: "extract_offers_with_config basic_library offers_doc [] [u ''span'', u ''h2 a'']
     = ([u ''span'', u ''h2 a''], [u ''10% off''])"
  proof -
    note t = first_success_determines_value
      [where lib = basic_library and soup = offers_doc and found = "[]"
         and selectors = "[u ''span'']" and x = "u ''h2 a''",
        THEN conjunct2, THEN conjunct2, THEN conjunct2, THEN conjunct2]
    have "fst (extract_offers_with_config basic_library offers_doc [] ([u ''span''] @ [u ''h2 a'']))
        = [u ''span''] @ [u ''h2 a'']"
      by (rule t [THEN conjunct1])
    moreover
    have "snd (extract_offers_with_config basic_library offers_doc [] ([u ''span''] @ [u ''h2 a'']))
        = snd (extract_offers_with_config basic_library offers_doc [] [u ''span''])"
      by (rule t [THEN conjunct2, THEN conjunct2, THEN conjunct2, rule_format])
        (rule card_refused)
    ultimately show ?thesis
      unfolding card_span_offers snd_conv
      by (simp only: prod_eq_iff fst_conv snd_conv append.simps)
  qed
  from w1 w2 w3 w4 w5 w6 show ?thesis
    by (intro conjI)
qed

text \<open>
  The claim as stated fails in three ways. For the offers, with two expressions that
  both match, the second is evaluated too and its text is part of the result. In the
  resolver, a text-containment expression that matches a blank text node returns the
  empty text and stops, although the next expression would give a name; and a
  structural expression whose match has the non-empty text \<open>N/A\<close> is passed over.
\<close>

theorem offers_evaluates_every_expression:
  "extract_offers_with_config basic_library offers_doc [] [u ''span'', u ''p'']
     = ([u ''span'', u ''p''], [u ''10% off'', u ''Bank offer''])
   \<and> extract_offers_with_config basic_library offers_doc [] [u ''span'']
     = ([u ''span''], [u ''10% off''])
   \<and> extract_with_multiple_selectors basic_library blank_doc [contains_sel ''span'' '' '', u ''h2'']
     = ([contains_sel ''span'' '' ''], [])
   \<and> extract_with_multiple_selectors basic_library blank_doc [u ''h2'']
     = ([u ''h2''], u ''Real Name'')
   \<and> extract_with_multiple_selectors basic_library blank_doc [u ''p'', u ''h2'']
     = ([u ''p'', u ''h2''], u ''Real Name'')
   \<and> map get_text (elements blank_doc) = [[], u ''N/A'', u ''Real Name'']"
  by code_simp

text \<open>
  C2, on the code as it is. \<open>extract_delivery_info\<close> and \<open>extract_availability\<close> return
  the matched text node itself, stripped, and not the text of its enclosing element: on
  a fragment whose \<open>span\<close> holds the text \<open>Free delivery\<close> followed by a \<open>b\<close> element
  with \<open>today\<close>, the delivery text is \<open>Free delivery\<close> while the enclosing element's
  text is \<open>Free deliverytoday\<close>, which is what the resolver returns for
  \<open>span:contains("delivery")\<close> on the same fragment; likewise for the stock text.
\<close>

theorem delivery_returns_text_node:
  "extract_delivery_info basic_library delivery_doc = u ''Free delivery''
   \<and> map (\<lambda>sp. (fst sp, get_text (snd sp)))
         (find_all_string (\<lambda>s. re_search delivery_re s \<noteq> None) delivery_doc)
       = [(u ''Free delivery '', u ''Free deliverytoday'')]
   \<and> extract_availability basic_library delivery_doc = u ''In stock''
   \<and> map (\<lambda>sp. (fst sp, get_text (snd sp)))
         (find_all_string (\<lambda>s. re_search availability_re s \<noteq> None) delivery_doc)
       = [(u '' In stock '', u ''In stock(3 left)'')]
   \<and> extract_with_multiple_selectors basic_library delivery_doc [contains_sel ''span'' ''delivery'']
       = ([contains_sel ''span'' ''delivery''], u ''Free deliverytoday'')"
  by code_simp

section \<open>The generic extractor\<close>

lemma alternative_loop_first:
  "k < length selectors \<Longrightarrow> select lib (selectors ! k) soup = Some (e # es)
   \<Longrightarrow> \<forall>j<k. select lib (selectors ! j) soup = Some []
   \<Longrightarrow> alternative_loop lib soup site_key query now products selectors =
       (take (Suc k) selectors, take 10 (e # es),
        foldl (alternative_product site_key query now) products (enumerate (take 10 (e # es))))"
proof (induction selectors arbitrary: k)
  case Nil
  then show ?case by simp
next
  case (Cons s ss)
  show ?case
  proof (cases k)
    case 0
    with Cons.prems show ?thesis by simp
  next
    case (Suc n)
    from Cons.prems Suc have "select lib s soup = Some []"
      by auto
    moreover from Cons.prems Suc have "n < length ss" "select lib (ss ! n) soup = Some (e # es)"
      "\<forall>j<n. select lib (ss ! j) soup = Some []"
      by auto
    ultimately show ?thesis
      using Cons.IH [of n] Suc by (simp add: Let_def)
  qed
qed

lemma foldl_unchanged: "\<forall>x\<in>set xs. f acc x = acc \<Longrightarrow> foldl f acc xs = acc"
  by (induction xs) simp_all

lemma rejected_unchanged:
  "candidate_rejected site_key query now ie
   \<Longrightarrow> alternative_product site_key query now products ie = products"
  by (auto simp: candidate_rejected_def alternative_product_def Let_def split: option.splits)

lemma no_products_for_site:
  "no_products_for site_key products \<Longrightarrow> \<forall>p\<in>set products. site p \<noteq> site_key"
  by (auto simp: no_products_for_def filter_empty_conv)

lemma generic_only_after_empty_structured:
  "Generic \<in> set (fst (scrape_site lib tier1 soup text_content site_key query now products))
   \<Longrightarrow> \<not> snd (tier1 products) \<and> no_products_for site_key (fst (tier1 products))"
  by (auto simp: scrape_site_def Let_def split: if_splits)

text \<open>
  C7. The generic extractor is among the tiers that ran only if the first tier did not
  raise and left no product of the site. It runs its queries in list order: when query
  \<open>k\<close> is the first to select any element (the earlier ones selecting none), the
  queries run are exactly those up to \<open>k\<close>, the elements processed are the first ten of
  that query's matches, and the products are those that these candidates add; if every
  candidate is rejected the products are unchanged and still no further query is run.
\<close>

theorem generic_extractor_first_query_wins:
  "(Generic \<in> set (fst (scrape_site lib tier1 soup text_content site_key query now products))
      \<longrightarrow> \<not> snd (tier1 products) \<and> (\<forall>p\<in>set (fst (tier1 products)). site p \<noteq> site_key))
   \<and> (k < length alternative_selectors
        \<and> select lib (alternative_selectors ! k) soup = Some (e # es)
        \<and> (\<forall>j<k. select lib (alternative_selectors ! j) soup = Some [])
      \<longrightarrow> fst (try_alternative_parsing lib soup site_key query now products)
            = take (Suc k) alternative_selectors
          \<and> fst (snd (try_alternative_parsing lib soup site_key query now products))
            = take 10 (e # es)
          \<and> length (fst (snd (try_alternative_parsing lib soup site_key query now products)))
            \<le> 10
          \<and> snd (snd (try_alternative_parsing lib soup site_key query now products))
            = foldl (alternative_product site_key query now) products
                (enumerate (take 10 (e # es)))
          \<and> ((\<forall>ie\<in>set (enumerate (take 10 (e # es))). candidate_rejected site_key query now ie)
              \<longrightarrow> snd (snd (try_alternative_parsing lib soup site_key query now products))
                  = products))"
proof -
  have a: "\<not> snd (tier1 products) \<and> (\<forall>p\<in>set (fst (tier1 products)). site p \<noteq> site_key)"
    if "Generic \<in> set (fst (scrape_site lib tier1 soup text_content site_key query now products))"
    using generic_only_after_empty_structured [OF that] no_products_for_site by blast
  have b: "try_alternative_parsing lib soup site_key query now products =
       (take (Suc k) alternative_selectors, take 10 (e # es),
        foldl (alternative_product site_key query now) products (enumerate (take 10 (e # es))))"
    if "k < length alternative_selectors"
      "select lib (alternative_selectors ! k) soup = Some (e # es)"
      "\<forall>j<k. select lib (alternative_selectors ! j) soup = Some []"
    unfolding try_alternative_parsing_def using that by (rule alternative_loop_first)
  have c: "foldl (alternative_product site_key query now) products (enumerate (take 10 (e # es)))
       = products"
    if "\<forall>ie\<in>set (enumerate (take 10 (e # es))). candidate_rejected site_key query now ie"
    using that by (intro foldl_unchanged) (simp add: rejected_unchanged)
  from a b c show ?thesis
    by (auto simp del: take_Suc_Cons)
qed

lemma articles_before:
  "list_all (\<lambda>s. select basic_library s articles_doc = Some []) (take 6 alternative_selectors)"
  by code_simp

lemma articles_found:
  "select basic_library (alternative_selectors ! 6) articles_doc
     = Some (Tag (u ''article'') [] [Text NavigableString (u ''Wireless Mouse for laptops'')]
             # replicate 11 (Tag (u ''article'') [] [Text NavigableString (u ''Ad'')]))"
  by code_simp

lemma articles_run:
  "scrape_site basic_library (\<lambda>ps. (ps, False)) articles_doc (u ''Wireless Mouse for laptops'')
     (u ''meesho'') None (u ''2024-01-01T00:00:00'') []
   = ([Structured, Generic],
      [\<lparr>index = 1, name = u ''Wireless Mouse for laptops'', current_price = NA,
        original_price = NA, rating = NA, reviews = NA, discount = NA, offers = [],
        image_url = NA, delivery = NA, availability = NA, search_query = Some NA,
        site = u ''meesho'', scraped_at = u ''2024-01-01T00:00:00''\<rparr>])"
  by code_simp

theorem generic_extractor_first_query_wins_witness:
  "Generic \<in> set (fst (scrape_site basic_library (\<lambda>ps. (ps, False)) articles_doc
       (u ''Wireless Mouse for laptops'') (u ''meesho'') None (u ''2024-01-01T00:00:00'') []))
   \<and> fst (try_alternative_parsing basic_library articles_doc (u ''meesho'') None
         (u ''2024-01-01T00:00:00'') [])
       = take 7 alternative_selectors
   \<and> length (fst (snd (try_alternative_parsing basic_library articles_doc (u ''meesho'') None
         (u ''2024-01-01T00:00:00'') []))) = 10"
proof -
  let ?e = "Tag (u ''article'') [] [Text NavigableString (u ''Wireless Mouse for laptops'')]"
  let ?es = "replicate 11 (Tag (u ''article'') [] [Text NavigableString (u ''Ad'')])"
  have len: "length alternative_selectors = 8"
    by (simp add: alternative_selectors_def)
  have before: "\<forall>j<6. select basic_library (alternative_selectors ! j) articles_doc = Some []"
    using articles_before len by (simp add: list_all_length)
  have k: "(6::nat) < length alternative_selectors"
    using len by simp
  have run: "Generic \<in> set (fst (scrape_site basic_library (\<lambda>ps. (ps, False)) articles_doc
       (u ''Wireless Mouse for laptops'') (u ''meesho'') None (u ''2024-01-01T00:00:00'') []))"
    unfolding articles_run by simp
  from generic_extractor_first_query_wins [of basic_library "\<lambda>ps. (ps, False)" articles_doc "u ''Wireless Mouse for laptops''"
      "u ''meesho''" None "u ''2024-01-01T00:00:00''" "[]" 6 ?e ?es]
    k articles_found before
  have "fst (try_alternative_parsing basic_library articles_doc (u ''meesho'') None
         (u ''2024-01-01T00:00:00'') [])
       = take 7 alternative_selectors"
    and "fst (snd (try_alternative_parsing basic_library articles_doc (u ''meesho'') None
         (u ''2024-01-01T00:00:00'') [])) = take 10 (?e # ?es)"
    by simp_all
  with run show ?thesis
    by simp
qed

section \<open>The emergency extractor\<close>

lemma emergency_loop_first:
  "k < length urls \<Longrightarrow> fetch (urls ! k) = Page True html \<Longrightarrow> html \<noteq> []
   \<Longrightarrow> \<forall>j<k. \<not> usable (fetch (urls ! j))
   \<Longrightarrow> emergency_loop fetch find_title now products urls =
       (take (Suc k) urls,
        products @ [emergency_product (length products)
           (case find_title html of None \<Rightarrow> u ''Emergency Product'' | Some t \<Rightarrow> t) now])"
proof (induction urls arbitrary: k)
  case Nil
  then show ?case by simp
next
  case (Cons url urls)
  show ?case
  proof (cases k)
    case 0
    with Cons.prems show ?thesis by simp
  next
    case (Suc n)
    from Cons.prems Suc have "\<not> usable (fetch url)"
      by auto
    moreover from Cons.prems Suc have "n < length urls" "fetch (urls ! n) = Page True html"
      "\<forall>j<n. \<not> usable (fetch (urls ! j))"
      by auto
    ultimately show ?thesis
      using Cons.IH [of n] Cons.prems(3) Suc
      by (cases "fetch url") (auto simp: Let_def)
  qed
qed

lemma emergency_loop_none:
  "\<forall>url\<in>set urls. \<not> usable (fetch url)
   \<Longrightarrow> emergency_loop fetch find_title now products urls = (urls, products)"
proof (induction urls)
  case Nil
  then show ?case by simp
next
  case (Cons url urls)
  then show ?case
    by (cases "fetch url") (auto simp: Let_def)
qed

lemma emergency_loop_fetched:
  "\<exists>n. fst (emergency_loop fetch find_title now products urls) = take n urls"
proof (induction urls)
  case Nil
  then show ?case by simp
next
  case (Cons url urls)
  then obtain n where n: "fst (emergency_loop fetch find_title now products urls) = take n urls"
    by blast
  have "fst (emergency_loop fetch find_title now products (url # urls)) = take (Suc 0) (url # urls)
      \<or> fst (emergency_loop fetch find_title now products (url # urls)) = take (Suc n) (url # urls)"
    using n by (cases "fetch url") (auto simp: Let_def)
  then show ?case
    by blast
qed

lemma emergency_loop_appends:
  "snd (emergency_loop fetch find_title now products urls) = products
   \<or> (\<exists>title. snd (emergency_loop fetch find_title now products urls)
         = products @ [emergency_product (length products) title now])"
proof (induction urls)
  case Nil
  then show ?case by simp
next
  case (Cons url urls)
  then show ?case
    by (cases "fetch url") (auto simp: Let_def)
qed

text \<open>
  C9, as amended. \<open>main\<close> calls the emergency extractor at most once, and exactly when
  the session holds no accepted record; otherwise no page is fetched and the records are
  left as they are. The extractor tries its fixed pages in order: the pages fetched are
  always an initial part of the list, and at most one record is appended. At the first
  page whose fetch reports success and returns a non-empty page it appends exactly one
  record, with site identifier \<open>emergency\<close> and the page's title (or
  \<open>Emergency Product\<close>) as name, and fetches no further page; a fetch that raises,
  reports failure, or reports success with an empty page is passed over. When no page is
  usable all are fetched and nothing is appended.
\<close>

theorem emergency_extractor_once:
  "fst (main_fallback fetch find_title now products) \<le> 1
   \<and> (fst (main_fallback fetch find_title now products) = 1 \<longleftrightarrow> products = [])
   \<and> (k < length simple_urls \<and> fetch (simple_urls ! k) = Page True html \<and> html \<noteq> []
        \<and> (\<forall>j<k. \<not> usable (fetch (simple_urls ! j)))
      \<longrightarrow> emergency_extraction fetch find_title now products =
           (take (Suc k) simple_urls,
            products @ [emergency_product (length products)
              (case find_title html of None \<Rightarrow> u ''Emergency Product'' | Some t \<Rightarrow> t) now])
          \<and> site (emergency_product (length products)
              (case find_title html of None \<Rightarrow> u ''Emergency Product'' | Some t \<Rightarrow> t) now)
            = u ''emergency'')
   \<and> ((\<forall>url\<in>set simple_urls. \<not> usable (fetch url))
      \<longrightarrow> emergency_extraction fetch find_title now products = (simple_urls, products))
   \<and> (products \<noteq> [] \<longrightarrow> main_fallback fetch find_title now products = (0, [], products))
   \<and> (\<exists>n. fst (snd (main_fallback fetch find_title now products)) = take n simple_urls)
   \<and> (snd (snd (main_fallback fetch find_title now products)) = products
      \<or> (\<exists>title. snd (snd (main_fallback fetch find_title now products))
            = products @ [emergency_product (length products) title now]))"
proof -
  have a: "emergency_extraction fetch find_title now products =
           (take (Suc k) simple_urls,
            products @ [emergency_product (length products)
              (case find_title html of None \<Rightarrow> u ''Emergency Product'' | Some t \<Rightarrow> t) now])"
    if "k < length simple_urls" "fetch (simple_urls ! k) = Page True html" "html \<noteq> []"
      "\<forall>j<k. \<not> usable (fetch (simple_urls ! j))"
    unfolding emergency_extraction_def using that by (rule emergency_loop_first)
  have b: "emergency_extraction fetch find_title now products = (simple_urls, products)"
    if "\<forall>url\<in>set simple_urls. \<not> usable (fetch url)"
    unfolding emergency_extraction_def using that by (rule emergency_loop_none)
  have c: "\<exists>n. fst (snd (main_fallback fetch find_title now products)) = take n simple_urls"
  proof (cases "products = []")
    case True
    then show ?thesis
      using emergency_loop_fetched [of fetch find_title now products simple_urls]
      by (simp add: main_fallback_def emergency_extraction_def)
  next
    case False
    then have "fst (snd (main_fallback fetch find_title now products)) = take 0 simple_urls"
      by (simp add: main_fallback_def)
    then show ?thesis
      by blast
  qed
  have d: "snd (snd (main_fallback fetch find_title now products)) = products
      \<or> (\<exists>title. snd (snd (main_fallback fetch find_title now products))
            = products @ [emergency_product (length products) title now])"
  proof (cases "products = []")
    case True
    then show ?thesis
      using emergency_loop_appends [of fetch find_title now "[]" simple_urls]
      by (simp add: main_fallback_def emergency_extraction_def)
  next
    case False
    then show ?thesis
      by (simp add: main_fallback_def)
  qed
  have e: "site (emergency_product n t now) = u ''emergency''" for n t
    by (simp add: emergency_product_def)
  have f: "fst (main_fallback fetch find_title now products) \<le> 1"
    "fst (main_fallback fetch find_title now products) = 1 \<longleftrightarrow> products = []"
    "products \<noteq> [] \<longrightarrow> main_fallback fetch find_title now products = (0, [], products)"
    by (simp_all add: main_fallback_def)
  have a': "k < length simple_urls \<and> fetch (simple_urls ! k) = Page True html \<and> html \<noteq> []
        \<and> (\<forall>j<k. \<not> usable (fetch (simple_urls ! j)))
      \<longrightarrow> emergency_extraction fetch find_title now products =
           (take (Suc k) simple_urls,
            products @ [emergency_product (length products)
              (case find_title html of None \<Rightarrow> u ''Emergency Product'' | Some t \<Rightarrow> t) now])
          \<and> site (emergency_product (length products)
              (case find_title html of None \<Rightarrow> u ''Emergency Product'' | Some t \<Rightarrow> t) now)
            = u ''emergency''"
    using a e by blast
  have b': "(\<forall>url\<in>set simple_urls. \<not> usable (fetch url))
      \<longrightarrow> emergency_extraction fetch find_title now products = (simple_urls, products)"
    using b by blast
  show ?thesis
    by (intro conjI) (rule f(1) f(2) a' b' f(3) c d)+
qed

theorem emergency_extractor_once_witness:
  "main_fallback fetch_second (\<lambda>html. Some (u ''Example Domain'')) (u ''2024-01-01T00:00:00'') []
     = (1, simple_urls,
        [emergency_product 0 (u ''Example Domain'') (u ''2024-01-01T00:00:00'')])
   \<and> main_fallback fetch_second (\<lambda>html. Some (u ''Example Domain'')) (u ''2024-01-01T00:00:00'')
       [sample]
     = (0, [], [sample])
   \<and> emergency_extraction (\<lambda>url. Raised) (\<lambda>html. None) (u ''2024-01-01T00:00:00'') []
     = (simple_urls, [])"
proof -
  let ?html = "u ''<html><head><title>Example Domain</title></head></html>''"
  let ?title = "\<lambda>html :: ustring. Some (u ''Example Domain'')"
  let ?now = "u ''2024-01-01T00:00:00''"
  have a: "1 < length simple_urls \<and> fetch_second (simple_urls ! 1) = Page True ?html \<and> ?html \<noteq> []
    \<and> (\<forall>j<1. \<not> usable (fetch_second (simple_urls ! j)))"
    by (simp add: simple_urls_def fetch_second_def u_def)
  note t = emergency_extractor_once [where fetch = fetch_second and find_title = ?title
      and now = ?now and k = 1 and html = ?html]
  have "emergency_extraction fetch_second ?title ?now []
    = (take (Suc 1) simple_urls, [] @ [emergency_product (length ([] :: product list))
         (case ?title ?html of None \<Rightarrow> u ''Emergency Product'' | Some t \<Rightarrow> t) ?now])"
    using t [where products = "[]", THEN conjunct2, THEN conjunct2, THEN conjunct1, THEN mp, OF a]
    by (rule conjunct1)
  then have w1: "main_fallback fetch_second ?title ?now []
     = (1, simple_urls, [emergency_product 0 (u ''Example Domain'') ?now])"
    by (simp add: main_fallback_def simple_urls_def)
  have "[sample] \<noteq> []"
    by simp
  then have w2: "main_fallback fetch_second ?title ?now [sample] = (0, [], [sample])"
    by (rule t [where products = "[sample]", THEN conjunct2, THEN conjunct2, THEN conjunct2,
          THEN conjunct2, THEN conjunct1, THEN mp])
  have "\<forall>url\<in>set simple_urls. \<not> usable ((\<lambda>url. Raised) url)"
    by simp
  then have w3: "emergency_extraction (\<lambda>url. Raised) (\<lambda>html. None) ?now [] = (simple_urls, [])"
    by (rule emergency_extractor_once [where fetch = "\<lambda>url. Raised" and products = "[]",
          THEN conjunct2, THEN conjunct2, THEN conjunct2, THEN conjunct1, THEN mp])
  from w1 w2 w3 show ?thesis
    by (intro conjI)
qed

text \<open>
  The claim as stated fails when a fetch reports success with an empty page: the first
  page is then fetched successfully, yet no record is made from it and the next page is
  tried.
\<close>

theorem emergency_skips_empty_page:
  "fetch_empty_first (simple_urls ! 0) = Page True []
   \<and> emergency_extraction fetch_empty_first (\<lambda>html. Some (u ''Example Domain''))
       (u ''2024-01-01T00:00:00'') []
     = (simple_urls, [emergency_product 0 (u ''Example Domain'') (u ''2024-01-01T00:00:00'')])"
  by (simp add: emergency_extraction_def simple_urls_def fetch_empty_first_def u_def)

end
